theory Spec2Isabelle
  imports Main
begin

section \<open>The script-mode register command of flytekit\<close>

text \<open>
  A shallow embedding of \<^verbatim>\<open>flytekit/clis/sdk_in_container/register.py\<close>: the click command
  \<^verbatim>\<open>run\<close>, its helper \<^verbatim>\<open>_load_naive_entity\<close> and the argument resolver
  \<^verbatim>\<open>_parse_workflow_inputs\<close>. Python strings are \<open>string\<close> (a character is a code point
  below 256: ASCII and Latin-1; text with other code points is outside the model),
  Python's unbounded integers are \<open>int\<close>, dictionaries are maps, exceptions are
  values of the type \<open>error\<close>, and every call of a collaborator (module loader, type
  engine, remote client, file access, script hashing) is recorded in a trace of events.
\<close>

subsection \<open>Data\<close>

text \<open>\<^verbatim>\<open>CreateUploadLocationResponse\<close>: the two URLs the command reads.\<close>

record upload_location =
  signed_url :: string
  native_url :: string

text \<open>
  What \<^verbatim>\<open>TypeEngine.guess_python_type\<close> returns, as far as the resolver tells the results
  apart: it compares the type with \<^verbatim>\<open>str\<close>, \<^verbatim>\<open>int\<close> and \<^verbatim>\<open>StructuredDataset\<close>.
\<close>

datatype python_type = PyStr | PyInt | PyStructuredDataset | PyOther string

text \<open>The values the resolver stores in \<^verbatim>\<open>args\<close>.\<close>

datatype pyvalue = VStr string | VInt int | VStructuredDataset string

text \<open>
  The workflow entity: \<^verbatim>\<open>wf_entity.interface.inputs[name].type\<close> is \<open>interface_inputs wf name\<close>, a
  literal type \<open>'t\<close> of the type engine.
\<close>

record 't wf_entity =
  wf_name :: string
  interface_inputs :: "string \<rightharpoonup> 't"

text \<open>\<^verbatim>\<open>SerializationSettings\<close> with its \<^verbatim>\<open>FastSerializationSettings\<close>, as \<^verbatim>\<open>run\<close> builds them.\<close>

record 'i serialization_settings =
  ss_image_config :: 'i
  ss_fast_enabled :: bool
  ss_destination_dir :: string
  ss_distribution_location :: string

text \<open>
  The exceptions. \<open>ValueError\<close> carries its message: either the text of the resolver's
  own \<^verbatim>\<open>raise ValueError(...)\<close>, or \<open>IntConversion s\<close> for the \<^verbatim>\<open>ValueError\<close> that the builtin
  \<^verbatim>\<open>int\<close> raises for the string \<open>s\<close> (its message is the one of \<^verbatim>\<open>int\<close>: an invalid
  literal, or a literal over the digit limit). \<open>UnboundLocalError\<close> names the local
  variable that is read before it is assigned. \<open>Propagated\<close> is an exception raised
  inside a collaborator, which the command never catches.
\<close>

datatype value_error_message = Message string | IntConversion string

datatype error =
    FlyteValidationException string
  | KeyError string
  | IndexError
  | ValueError value_error_message
  | UnboundLocalError string
  | Propagated string

text \<open>The collaborator calls, each with the arguments the command passes.\<close>

datatype ('t, 'i) event =
    ImportModule string
  | LoadObjectFromModule string
  | PlatformConfigAuto
  | SynchronousFlyteClient
  | CreateUploadLocation string string "string option"
  | PutData string string
  | HashScriptFile string
  | ConfigAuto
  | FlyteRemote string string
  | RegisterWorkflowScriptMode "'t wf_entity" "'i serialization_settings" string string
  | Execute string "string \<rightharpoonup> pyvalue" string string bool
  | Print string

text \<open>
  The collaborators. Each answers from the history of the calls made so far, so that
  an answer may depend on every earlier call (an upload location that is new at each
  request, a quota that runs out); \<open>Inl\<close> is the message of the exception it raises.
  \<open>fails\<close> answers for the calls whose result the command does not use.
  \<open>int_max_str_digits\<close> is the setting of the interpreter that \<^verbatim>\<open>int\<close> reads
  (\<^verbatim>\<open>sys.get_int_max_str_digits()\<close>): the most digits a decimal literal may have, or 0
  for no limit, which is also the behaviour of an interpreter without the setting.
\<close>

record ('t, 'i) collaborators =
  fails :: "('t, 'i) event list \<Rightarrow> ('t, 'i) event \<Rightarrow> string option"
  load_object_from_module :: "('t, 'i) event list \<Rightarrow> string \<Rightarrow> string + 't wf_entity"
  guess_python_type :: "'t \<Rightarrow> string + python_type"
  create_upload_location ::
    "('t, 'i) event list \<Rightarrow> string \<Rightarrow> string \<Rightarrow> string option \<Rightarrow> string + upload_location"
  hash_script_file :: "('t, 'i) event list \<Rightarrow> string \<Rightarrow> string + string"
  register_workflow_script_mode ::
    "('t, 'i) event list \<Rightarrow> 't wf_entity \<Rightarrow> 'i serialization_settings \<Rightarrow> string \<Rightarrow> string
      \<Rightarrow> string + string"
  execute ::
    "('t, 'i) event list \<Rightarrow> string \<Rightarrow> (string \<rightharpoonup> pyvalue) \<Rightarrow> string \<Rightarrow> string \<Rightarrow> bool
      \<Rightarrow> string + string"
  int_max_str_digits :: nat

subsection \<open>Actions: a result or an exception, and the trace\<close>

type_synonym ('t, 'i, 'a) action = "('t, 'i) event list \<Rightarrow> (error + 'a) \<times> ('t, 'i) event list"

definition succeed :: "'a \<Rightarrow> ('t, 'i, 'a) action" where
  "succeed x tr = (Inr x, tr)"

definition raise :: "error \<Rightarrow> ('t, 'i, 'a) action" where
  "raise e tr = (Inl e, tr)"

definition and_then :: "('t, 'i, 'a) action \<Rightarrow> ('a \<Rightarrow> ('t, 'i, 'b) action) \<Rightarrow> ('t, 'i, 'b) action" where
  "and_then m f tr = (case m tr of (Inl e, tr') \<Rightarrow> (Inl e, tr') | (Inr x, tr') \<Rightarrow> f x tr')"

text \<open>A call: the event joins the trace, an exception of the collaborator propagates.\<close>

definition call :: "(('t, 'i) event list \<Rightarrow> string + 'a) \<Rightarrow> ('t, 'i) event \<Rightarrow> ('t, 'i, 'a) action" where
  "call answer ev tr =
     ((case answer tr of Inl m \<Rightarrow> Inl (Propagated m) | Inr x \<Rightarrow> Inr x), tr @ [ev])"

definition call_unit :: "('t, 'i) collaborators \<Rightarrow> ('t, 'i) event \<Rightarrow> ('t, 'i, unit) action" where
  "call_unit env ev =
     call (\<lambda>tr. case fails env tr ev of Some m \<Rightarrow> Inl m | None \<Rightarrow> Inr ()) ev"

subsection \<open>Builtins of Python the command uses\<close>

text \<open>\<^verbatim>\<open>s.split(sep)\<close> for a one-character separator: never empty, one part more than separators.\<close>

fun str_split :: "char \<Rightarrow> string \<Rightarrow> string list" where
  "str_split sep [] = [[]]"
| "str_split sep (c # cs) =
     (if c = sep then [] # str_split sep cs
      else (case str_split sep cs of [] \<Rightarrow> [[c]] | p # ps \<Rightarrow> (c # p) # ps))"

text \<open>\<^verbatim>\<open>s.rfind(c)\<close>: the last index of \<open>c\<close>, or \<open>-1\<close>.\<close>

definition rfind :: "char \<Rightarrow> string \<Rightarrow> int" where
  "rfind c s = (case filter (\<lambda>i. s ! i = c) (rev [0..<length s]) of [] \<Rightarrow> - 1 | i # _ \<Rightarrow> int i)"

text \<open>
  \<^verbatim>\<open>os.path.splitext\<close> of posixpath: the extension starts at the last dot of the last
  path component, unless that component has only dots before it.
\<close>

definition splitext :: "string \<Rightarrow> string \<times> string" where
  "splitext p =
     (let sepIndex = rfind CHR ''/'' p; dotIndex = rfind CHR ''.'' p in
      if dotIndex > sepIndex
         \<and> list_ex (\<lambda>i. p ! i \<noteq> CHR ''.'') [nat (sepIndex + 1)..<nat dotIndex]
      then (take (nat dotIndex) p, drop (nat dotIndex) p)
      else (p, []))"

text \<open>\<^verbatim>\<open>s.replace(os.path.sep, ".")\<close>.\<close>

definition replace_sep :: "string \<Rightarrow> string" where
  "replace_sep s = map (\<lambda>c. if c = CHR ''/'' then CHR ''.'' else c) s"

text \<open>
  \<^verbatim>\<open>int(s)\<close> for a string, base 10, as CPython scans it: whitespace is skipped, then
  an optional sign, then decimal digits with single underscores between them, then
  whitespace to the end. The whitespace of \<^verbatim>\<open>int\<close> among the code points below 256 is
  tab to carriage return, the space, and the two Latin-1 spaces U+0085 and U+00A0. A
  literal with more digits than a positive \<open>max_str_digits\<close> is refused. \<open>None\<close> is
  the \<^verbatim>\<open>ValueError\<close> of \<^verbatim>\<open>int\<close>.
\<close>

definition is_space :: "char \<Rightarrow> bool" where
  "is_space c =
     (c \<in> set [CHR 0x09, CHR 0x0A, CHR 0x0B, CHR 0x0C, CHR 0x0D, CHR 0x20, CHR 0x85, CHR 0xA0])"

definition is_digit :: "char \<Rightarrow> bool" where
  "is_digit c = (48 \<le> (of_char c :: nat) \<and> (of_char c :: nat) \<le> 57)"

definition digit_value :: "char \<Rightarrow> nat" where
  "digit_value c = of_char c - 48"

fun parse_digits :: "nat \<Rightarrow> string \<Rightarrow> nat option" where
  "parse_digits acc [] = Some acc"
| "parse_digits acc [c] = (if is_digit c then Some (10 * acc + digit_value c) else None)"
| "parse_digits acc (c # d # ds) =
     (if is_digit c then parse_digits (10 * acc + digit_value c) (d # ds)
      else if c = CHR ''_'' \<and> is_digit d then parse_digits (10 * acc + digit_value d) ds
      else None)"

definition py_int :: "nat \<Rightarrow> string \<Rightarrow> int option" where
  "py_int max_str_digits s =
     (let s1 = dropWhile is_space s;
          negative = (case s1 of [] \<Rightarrow> False | c # _ \<Rightarrow> c = CHR ''-'');
          s2 = (case s1 of [] \<Rightarrow> [] | c # r \<Rightarrow> if c = CHR ''+'' \<or> c = CHR ''-'' then r else s1);
          s3 = rev (dropWhile is_space (rev s2))
      in case s3 of
           [] \<Rightarrow> None
         | c # r \<Rightarrow>
             if is_digit c
             then (case parse_digits (digit_value c) r of
                     None \<Rightarrow> None
                   | Some n \<Rightarrow>
                       if 0 < max_str_digits \<and> max_str_digits < length (filter is_digit s3)
                       then None
                       else Some (if negative then - int n else int n))
             else None)"

subsection \<open>The argument resolver\<close>

text \<open>
  The third argument of \<^verbatim>\<open>_parse_workflow_inputs\<close>: \<^verbatim>\<open>run\<close> passes
  \<^verbatim>\<open>functools.partial(client.create_upload_location, project=..., domain=...)\<close>, a closure
  that is its two bound keyword arguments. Calling it calls the client with them and no
  suffix.
\<close>

datatype upload_location_fn = PartialCreateUploadLocation string string

fun create_upload_location_fn ::
  "('t, 'i) collaborators \<Rightarrow> upload_location_fn \<Rightarrow> ('t, 'i, upload_location) action" where
  "create_upload_location_fn env (PartialCreateUploadLocation project domain) =
     call (\<lambda>tr. create_upload_location env tr project domain None)
       (CreateUploadLocation project domain None)"

text \<open>
  The body of the loop after the two reads of \<^verbatim>\<open>click_ctx.args\<close> (lines 148 to 160): the
  lookup in the interface, the guess of the Python type, and the branch on it. It
  returns the value that line 162 stores.
\<close>

definition resolve_argument ::
  "('t, 'i) collaborators \<Rightarrow> 't wf_entity \<Rightarrow> upload_location_fn \<Rightarrow> string \<Rightarrow> string
    \<Rightarrow> ('t, 'i, pyvalue) action" where
  "resolve_argument env wf_entity fn argument value =
     (case interface_inputs wf_entity argument of
        None \<Rightarrow> raise (KeyError argument)
      | Some t \<Rightarrow>
          (case guess_python_type env t of
             Inl m \<Rightarrow> raise (Propagated m)
           | Inr python_type \<Rightarrow>
               if python_type = PyStr then succeed (VStr value)
               else if python_type = PyInt then
                 (case py_int (int_max_str_digits env) value of
                    None \<Rightarrow> raise (ValueError (IntConversion value))
                  | Some n \<Rightarrow> succeed (VInt n))
               else if python_type = PyStructuredDataset then
                 and_then (create_upload_location_fn env fn) (\<lambda>df_remote_location.
                 and_then (call_unit env (PutData value (signed_url df_remote_location))) (\<lambda>_.
                 succeed (VStructuredDataset (native_url df_remote_location))))
               else raise (ValueError (Message (''Unsupported type for argument '' @ argument)))))"

text \<open>
  The loop \<^verbatim>\<open>for i in range(0, len(click_ctx.args), 2)\<close> over the tokens that are left:
  \<^verbatim>\<open>click_ctx.args[i][2:]\<close> drops two characters of the flag, \<^verbatim>\<open>click_ctx.args[i + 1]\<close>
  raises \<^verbatim>\<open>IndexError\<close> when the flag is the last token.
\<close>

fun parse_workflow_inputs_loop ::
  "('t, 'i) collaborators \<Rightarrow> 't wf_entity \<Rightarrow> upload_location_fn \<Rightarrow> string list
    \<Rightarrow> (string \<rightharpoonup> pyvalue) \<Rightarrow> ('t, 'i, string \<rightharpoonup> pyvalue) action" where
  "parse_workflow_inputs_loop env wf_entity fn [] args = succeed args"
| "parse_workflow_inputs_loop env wf_entity fn [flag] args = raise IndexError"
| "parse_workflow_inputs_loop env wf_entity fn (flag # value # rest) args =
     and_then (resolve_argument env wf_entity fn (drop 2 flag) value) (\<lambda>v.
     parse_workflow_inputs_loop env wf_entity fn rest (args(drop 2 flag \<mapsto> v)))"

definition parse_workflow_inputs ::
  "('t, 'i) collaborators \<Rightarrow> string list \<Rightarrow> 't wf_entity \<Rightarrow> upload_location_fn
    \<Rightarrow> ('t, 'i, string \<rightharpoonup> pyvalue) action" where
  "parse_workflow_inputs env click_ctx_args wf_entity fn =
     parse_workflow_inputs_loop env wf_entity fn click_ctx_args Map.empty"

subsection \<open>The command\<close>

text \<open>
  \<^verbatim>\<open>_load_naive_entity\<close>: the import of the module, then the load of the workflow object.
  The serialization settings of the ambient context and the entry of the working
  directory in \<^verbatim>\<open>sys.path\<close> are scoped to the import and hold no state of the model.
\<close>

definition load_naive_entity ::
  "('t, 'i) collaborators \<Rightarrow> string \<Rightarrow> string \<Rightarrow> ('t, 'i, 't wf_entity) action" where
  "load_naive_entity env module_name workflow_name =
     and_then (call_unit env (ImportModule module_name)) (\<lambda>_.
     call (\<lambda>tr. load_object_from_module env tr (module_name @ ''.'' @ workflow_name))
       (LoadObjectFromModule (module_name @ ''.'' @ workflow_name)))"

definition validation_message :: "string \<Rightarrow> string" where
  "validation_message file_and_workflow =
     ''Input '' @ file_and_workflow @ '' must be in format '' @ [CHR 0x27]
       @ ''<file.py>:<worfklow>'' @ [CHR 0x27]"

text \<open>
  \<^verbatim>\<open>run\<close>. The name \<^verbatim>\<open>wf\<close> is assigned in the remote branch only (line 113), which makes
  it a local variable of the function: without \<^verbatim>\<open>--remote\<close> line 125 reads it before
  any assignment, and the read raises \<^verbatim>\<open>UnboundLocalError\<close> before anything is called or
  printed.
\<close>

definition run ::
  "('t, 'i) collaborators \<Rightarrow> string list \<Rightarrow> string \<Rightarrow> bool \<Rightarrow> string \<Rightarrow> string \<Rightarrow> string \<Rightarrow> 'i
    \<Rightarrow> ('t, 'i, unit) action" where
  "run env click_ctx_args file_and_workflow remote project domain destination_dir image_config =
     (let split_input = str_split CHR '':'' file_and_workflow in
      if length split_input \<noteq> 2
      then raise (FlyteValidationException (validation_message file_and_workflow))
      else
        let filename = split_input ! 0;
            workflow_name = split_input ! 1;
            module = replace_sep (fst (splitext filename))
        in
        and_then (load_naive_entity env module workflow_name) (\<lambda>wf_entity.
        if remote then
          and_then (call_unit env PlatformConfigAuto) (\<lambda>_.
          and_then (call_unit env SynchronousFlyteClient) (\<lambda>_.
          and_then (parse_workflow_inputs env click_ctx_args wf_entity
                      (PartialCreateUploadLocation ''flytesnacks'' ''development'')) (\<lambda>inputs.
          and_then (call (\<lambda>tr. hash_script_file env tr filename) (HashScriptFile filename)) (\<lambda>version.
          and_then (call (\<lambda>tr. create_upload_location env tr project domain
                                 (Some (''scriptmode-'' @ version @ ''.tar.gz'')))
                      (CreateUploadLocation project domain
                         (Some (''scriptmode-'' @ version @ ''.tar.gz'')))) (\<lambda>upload_location.
          let serialization_settings =
                \<lparr>ss_image_config = image_config, ss_fast_enabled = True,
                 ss_destination_dir = destination_dir,
                 ss_distribution_location = native_url upload_location\<rparr>
          in
          and_then (call_unit env ConfigAuto) (\<lambda>_.
          and_then (call_unit env (FlyteRemote project domain)) (\<lambda>_.
          and_then (call (\<lambda>tr. register_workflow_script_mode env tr wf_entity
                                 serialization_settings version (signed_url upload_location))
                      (RegisterWorkflowScriptMode wf_entity serialization_settings version
                         (signed_url upload_location))) (\<lambda>wf.
          and_then (call (\<lambda>tr. execute env tr wf inputs project domain True)
                      (Execute wf inputs project domain True)) (\<lambda>execution.
          call_unit env (Print execution))))))))))
        else raise (UnboundLocalError ''wf'')))"

subsection \<open>Reading the tokens and the trace\<close>

text \<open>
  The pairs the loop reads from a token list, in order: the flag without its first two
  characters, and the token after it. A flag with no token after it is no pair.
\<close>

fun token_pairs :: "string list \<Rightarrow> (string \<times> string) list" where
  "token_pairs [] = []"
| "token_pairs [flag] = []"
| "token_pairs (flag # value # rest) = (drop 2 flag, value) # token_pairs rest"

text \<open>The Python type line 148 finds for an argument name, when it finds one.\<close>

definition declared_python_type ::
  "('t, 'i) collaborators \<Rightarrow> 't wf_entity \<Rightarrow> string \<Rightarrow> python_type option" where
  "declared_python_type env wf_entity argument =
     (case interface_inputs wf_entity argument of
        None \<Rightarrow> None
      | Some t \<Rightarrow> (case guess_python_type env t of Inl _ \<Rightarrow> None | Inr p \<Rightarrow> Some p))"

text \<open>
  What \<^verbatim>\<open>int\<close> accepts, described without the scan: the string without the whitespace
  at its two ends is an optional sign and a body; the body, split at underscores, is
  groups of decimal digits, none of them empty; the value is the decimal value of the
  digits, each digit counted with the power of ten of its position, negated after a
  minus sign. The digit limit, when there is one, bounds the number of digits.
\<close>

definition py_strip :: "string \<Rightarrow> string" where
  "py_strip s = rev (dropWhile is_space (rev (dropWhile is_space s)))"

definition literal_negative :: "string \<Rightarrow> bool" where
  "literal_negative s = (case py_strip s of [] \<Rightarrow> False | c # _ \<Rightarrow> c = CHR ''-'')"

definition literal_body :: "string \<Rightarrow> string" where
  "literal_body s =
     (case py_strip s of
        [] \<Rightarrow> []
      | c # r \<Rightarrow> if c = CHR ''+'' \<or> c = CHR ''-'' then r else c # r)"

definition digit_groups :: "string \<Rightarrow> string list" where
  "digit_groups s = str_split CHR ''_'' (literal_body s)"

definition valid_integer_literal :: "string \<Rightarrow> bool" where
  "valid_integer_literal s = list_all (\<lambda>g. g \<noteq> [] \<and> list_all is_digit g) (digit_groups s)"

definition decimal_value :: "string \<Rightarrow> nat" where
  "decimal_value ds =
     sum_list (map (\<lambda>i. digit_value (ds ! i) * 10 ^ (length ds - Suc i)) [0..<length ds])"

definition integer_literal_value :: "string \<Rightarrow> int" where
  "integer_literal_value s =
     (if literal_negative s then - int (decimal_value (concat (digit_groups s)))
      else int (decimal_value (concat (digit_groups s))))"

definition int_accepts :: "nat \<Rightarrow> string \<Rightarrow> bool" where
  "int_accepts max_str_digits s =
     (valid_integer_literal s
      \<and> (max_str_digits = 0 \<or> length (concat (digit_groups s)) \<le> max_str_digits))"

text \<open>
  The conversion of one pair on its own, for the text and integer types: a text value
  is kept, an integer value is the value of its literal. \<open>None\<close> when the name is not
  declared with one of the two types, or \<^verbatim>\<open>int\<close> does not accept the value.
\<close>

definition text_or_integer_value ::
  "('t, 'i) collaborators \<Rightarrow> 't wf_entity \<Rightarrow> string \<Rightarrow> string \<Rightarrow> pyvalue option" where
  "text_or_integer_value env wf_entity argument value =
     (case declared_python_type env wf_entity argument of
        Some PyStr \<Rightarrow> Some (VStr value)
      | Some PyInt \<Rightarrow>
          if int_accepts (int_max_str_digits env) value
          then Some (VInt (integer_literal_value value))
          else None
      | _ \<Rightarrow> None)"

text \<open>
  The resolution the specification describes for text and integer arguments: every
  pair converted independently of the others, and the results collected in a map (a
  name given twice keeps its last value, as a dictionary does).
\<close>

definition independent_conversions ::
  "('t, 'i) collaborators \<Rightarrow> 't wf_entity \<Rightarrow> string list \<Rightarrow> (string \<times> pyvalue) list option" where
  "independent_conversions env wf_entity tokens =
     those (map (\<lambda>(argument, value).
                   map_option (Pair argument) (text_or_integer_value env wf_entity argument value))
              (token_pairs tokens))"

text \<open>The values of the arguments declared as structured datasets, in token order.\<close>

definition structured_dataset_values ::
  "('t, 'i) collaborators \<Rightarrow> 't wf_entity \<Rightarrow> string list \<Rightarrow> string list" where
  "structured_dataset_values env wf_entity tokens =
     map snd (filter (\<lambda>(argument, value).
                        declared_python_type env wf_entity argument = Some PyStructuredDataset)
                (token_pairs tokens))"

text \<open>
  The requests for an upload location in a trace. The resolver's requests carry no
  suffix; the request for the script archive carries one.
\<close>

fun dataset_request :: "('t, 'i) event \<Rightarrow> (string \<times> string) option" where
  "dataset_request (CreateUploadLocation project domain None) = Some (project, domain)"
| "dataset_request _ = None"

fun script_request :: "('t, 'i) event \<Rightarrow> (string \<times> string \<times> string) option" where
  "script_request (CreateUploadLocation project domain (Some suffix)) = Some (project, domain, suffix)"
| "script_request _ = None"

definition dataset_requests :: "('t, 'i) event list \<Rightarrow> (string \<times> string) list" where
  "dataset_requests tr = List.map_filter dataset_request tr"

definition script_requests :: "('t, 'i) event list \<Rightarrow> (string \<times> string \<times> string) list" where
  "script_requests tr = List.map_filter script_request tr"

subsection \<open>An example workflow and its collaborators\<close>

text \<open>
  A type engine that knows three literal types by name, a workflow with one input of
  each and one of a type the resolver does not handle, collaborators that never
  fail, and an interpreter with the digit limit 4300. Each upload location is new: its URLs count the calls made before it.
\<close>

definition example_guess :: "string \<Rightarrow> string + python_type" where
  "example_guess t =
     (if t = ''STRING'' then Inr PyStr
      else if t = ''INTEGER'' then Inr PyInt
      else if t = ''STRUCTURED_DATASET'' then Inr PyStructuredDataset
      else Inr (PyOther t))"

definition example_wf :: "string wf_entity" where
  "example_wf =
     \<lparr>wf_name = ''my_workflow'',
      interface_inputs =
        [''name'' \<mapsto> ''STRING'', ''count'' \<mapsto> ''INTEGER'',
         ''df'' \<mapsto> ''STRUCTURED_DATASET'', ''ratio'' \<mapsto> ''FLOAT'']\<rparr>"

definition empty_wf :: "string wf_entity" where
  "empty_wf = \<lparr>wf_name = ''no_inputs'', interface_inputs = Map.empty\<rparr>"

definition example_location :: "nat \<Rightarrow> upload_location" where
  "example_location n =
     \<lparr>signed_url = ''https://signed/'' @ replicate n CHR ''+'',
      native_url = ''s3://bucket/'' @ replicate n CHR ''+''\<rparr>"

definition example_env :: "(string, string) collaborators" where
  "example_env =
     \<lparr>fails = (\<lambda>tr ev. None),
      load_object_from_module = (\<lambda>tr name. Inr example_wf),
      guess_python_type = example_guess,
      create_upload_location = (\<lambda>tr project domain suffix. Inr (example_location (length tr))),
      hash_script_file = (\<lambda>tr filename. Inr ''abc123''),
      register_workflow_script_mode = (\<lambda>tr wf_entity settings version url. Inr ''registered''),
      execute = (\<lambda>tr wf inputs project domain wait. Inr ''execution''),
      int_max_str_digits = 4300\<rparr>"

definition example_fn :: upload_location_fn where
  "example_fn = PartialCreateUploadLocation ''flytesnacks'' ''development''"

subsection \<open>Predicates on actions\<close>

text \<open>
  An action only adds events that satisfy \<open>P\<close>: whatever the trace before, the trace
  after is the trace before and then events of \<open>P\<close>, also when the action fails.
\<close>

definition only_adds :: "(('t, 'i) event \<Rightarrow> bool) \<Rightarrow> ('t, 'i, 'a) action \<Rightarrow> bool" where
  "only_adds P m = (\<forall>tr. \<exists>s. snd (m tr) = tr @ s \<and> list_all P s)"

text \<open>An action that succeeds has added an event that satisfies \<open>Q\<close>.\<close>

definition adds_some :: "(('t, 'i) event \<Rightarrow> bool) \<Rightarrow> ('t, 'i, 'a) action \<Rightarrow> bool" where
  "adds_some Q m = (\<forall>tr y tr'. m tr = (Inr y, tr') \<longrightarrow> (\<exists>s. tr' = tr @ s \<and> list_ex Q s))"

text \<open>
  The requests for an upload location that \<^verbatim>\<open>run\<close> may make for a project and a domain:
  without a suffix for the fixed project and domain only, with a suffix for the given
  ones only.
\<close>

fun request_allowed :: "string \<Rightarrow> string \<Rightarrow> ('t, 'i) event \<Rightarrow> bool" where
  "request_allowed project domain (CreateUploadLocation p d None) =
     (p = ''flytesnacks'' \<and> d = ''development'')"
| "request_allowed project domain (CreateUploadLocation p d (Some suffix)) =
     (p = project \<and> d = domain)"
| "request_allowed project domain _ = True"

text \<open>An action raises only exceptions that satisfy \<open>E\<close>.\<close>

definition raises_only :: "(error \<Rightarrow> bool) \<Rightarrow> ('t, 'i, 'a) action \<Rightarrow> bool" where
  "raises_only E m = (\<forall>tr e. fst (m tr) = Inl e \<longrightarrow> E e)"

text \<open>The exceptions other than the validation error of the command.\<close>

fun not_validation :: "error \<Rightarrow> bool" where
  "not_validation (FlyteValidationException msg) = False"
| "not_validation _ = True"

section \<open>The integers that \<^verbatim>\<open>int\<close> accepts\<close>

lemma underscore_not_digit: "\<not> is_digit CHR ''_''"
  by (simp add: is_digit_def)

lemma str_split_Cons:
  "str_split sep (c # cs) =
     (if c = sep then [] # str_split sep cs
      else (c # hd (str_split sep cs)) # tl (str_split sep cs))"
proof -
  have "str_split sep cs \<noteq> []" by (induction cs) (auto split: list.splits)
  then show ?thesis by (cases "str_split sep cs") auto
qed

lemma concat_str_split: "concat (str_split sep s) = filter (\<lambda>c. c \<noteq> sep) s"
  by (induction s) (auto split: list.splits)

lemma decimal_value_Nil: "decimal_value [] = 0"
  by (simp add: decimal_value_def)

lemma decimal_value_Cons:
  "decimal_value (d # ds) = digit_value d * 10 ^ length ds + decimal_value ds"
proof -
  have "[0..<Suc (length ds)] = 0 # map Suc [0..<length ds]"
    by (simp only: upt_conv_Cons zero_less_Suc map_Suc_upt)
  then show ?thesis
    by (simp add: decimal_value_def comp_def del: upt_Suc)
qed

lemma horner_decimal_value:
  "foldl (\<lambda>a c. 10 * a + digit_value c) acc ds = acc * 10 ^ length ds + decimal_value ds"
  by (induction ds arbitrary: acc)
    (simp_all add: decimal_value_Nil decimal_value_Cons algebra_simps)

lemma parse_digits_groups:
  "parse_digits acc r =
     (if list_all is_digit (hd (str_split CHR ''_'' r))
         \<and> list_all (\<lambda>g. g \<noteq> [] \<and> list_all is_digit g) (tl (str_split CHR ''_'' r))
      then Some (foldl (\<lambda>a c. 10 * a + digit_value c) acc (filter (\<lambda>c. c \<noteq> CHR ''_'') r))
      else None)"
proof (induction acc r rule: parse_digits.induct)
  case (1 acc)
  show ?case by simp
next
  case (2 acc c)
  show ?case using underscore_not_digit by (auto simp: str_split_Cons)
next
  case (3 acc c d ds)
  show ?case
  proof (cases "is_digit c")
    case True
    then have "c \<noteq> CHR ''_''" using underscore_not_digit by auto
    with True "3.IH"(1) [OF True] show ?thesis
      by (simp add: str_split_Cons del: str_split.simps)
  next
    case nd: False
    show ?thesis
    proof (cases "c = CHR ''_'' \<and> is_digit d")
      case True
      then have "d \<noteq> CHR ''_''" using underscore_not_digit by auto
      with True nd "3.IH"(2) [OF nd True] show ?thesis
        by (simp add: str_split_Cons del: str_split.simps)
    next
      case False
      with nd show ?thesis
        using underscore_not_digit
        by (auto simp: str_split_Cons simp del: str_split.simps)
    qed
  qed
qed

lemma strip_Cons:
  "\<not> P c \<Longrightarrow> rev (dropWhile P (rev r @ [c])) = c # rev (dropWhile P (rev r))"
  by (simp add: dropWhile_append)

lemma dropWhile_head: "dropWhile P s = c # r \<Longrightarrow> \<not> P c"
  by (metis hd_dropWhile list.distinct(1) list.sel(1))

lemma literal_negative_scan:
  "literal_negative s = (case dropWhile is_space s of [] \<Rightarrow> False | c # _ \<Rightarrow> c = CHR ''-'')"
proof (cases "dropWhile is_space s")
  case Nil
  show ?thesis by (simp add: literal_negative_def py_strip_def Nil)
next
  case (Cons c r)
  then have nsp: "\<not> is_space c" by (rule dropWhile_head)
  show ?thesis
    by (simp add: literal_negative_def py_strip_def Cons
        strip_Cons [where P = is_space and c = c, OF nsp])
qed

lemma literal_body_scan:
  "literal_body s =
     rev (dropWhile is_space
            (rev (case dropWhile is_space s of
                    [] \<Rightarrow> []
                  | c # r \<Rightarrow> if c = CHR ''+'' \<or> c = CHR ''-'' then r
                             else dropWhile is_space s)))"
proof (cases "dropWhile is_space s")
  case Nil
  show ?thesis by (simp add: literal_body_def py_strip_def Nil)
next
  case (Cons c r)
  then have nsp: "\<not> is_space c" by (rule dropWhile_head)
  show ?thesis
    by (simp add: literal_body_def py_strip_def Cons
        strip_Cons [where P = is_space and c = c, OF nsp])
qed

lemma py_int_body:
  "py_int max_str_digits s =
     (case literal_body s of
        [] \<Rightarrow> None
      | c # r \<Rightarrow>
          if is_digit c
          then (case parse_digits (digit_value c) r of
                  None \<Rightarrow> None
                | Some n \<Rightarrow>
                    if 0 < max_str_digits \<and> max_str_digits < length (filter is_digit (literal_body s))
                    then None
                    else Some (if literal_negative s then - int n else int n))
          else None)"
  unfolding py_int_def Let_def literal_body_scan literal_negative_scan ..

lemma filter_digits_groups:
  "list_all is_digit (filter (\<lambda>c. c \<noteq> CHR ''_'') b) \<Longrightarrow>
   filter is_digit b = filter (\<lambda>c. c \<noteq> CHR ''_'') b"
  using underscore_not_digit by (induction b) auto

lemma groups_all_digits:
  "list_all (\<lambda>g. g \<noteq> [] \<and> list_all is_digit g) gs \<Longrightarrow> list_all is_digit (concat gs)"
  by (induction gs) auto

lemma valid_body_Cons:
  "list_all (\<lambda>g. g \<noteq> [] \<and> list_all is_digit g) (str_split CHR ''_'' (c # r)) =
     (is_digit c \<and> list_all is_digit (hd (str_split CHR ''_'' r))
      \<and> list_all (\<lambda>g. g \<noteq> [] \<and> list_all is_digit g) (tl (str_split CHR ''_'' r)))"
  using underscore_not_digit by (auto simp: str_split_Cons simp del: str_split.simps)

lemma py_int_spec:
  "py_int max_str_digits s =
     (if int_accepts max_str_digits s then Some (integer_literal_value s) else None)"
proof (cases "literal_body s")
  case Nil
  then show ?thesis
    by (simp add: py_int_body int_accepts_def valid_integer_literal_def digit_groups_def)
next
  case (Cons c r)
  let ?P = "\<lambda>g. g \<noteq> [] \<and> list_all is_digit g"
  let ?G = "list_all is_digit (hd (str_split CHR ''_'' r))
            \<and> list_all ?P (tl (str_split CHR ''_'' r))"
  have valid: "valid_integer_literal s = (is_digit c \<and> ?G)"
    by (simp only: valid_integer_literal_def digit_groups_def Cons valid_body_Cons)
  show ?thesis
  proof (cases "is_digit c \<and> ?G")
    case False
    then have "\<not> int_accepts max_str_digits s"
      unfolding int_accepts_def valid by blast
    moreover from False have "py_int max_str_digits s = None"
      by (auto simp: py_int_body Cons parse_digits_groups)
    ultimately show ?thesis by simp
  next
    case True
    then have c: "is_digit c" and g: ?G by simp_all
    from c have nu: "c \<noteq> CHR ''_''" using underscore_not_digit by auto
    have v: "valid_integer_literal s" using valid True by simp
    have cat: "concat (digit_groups s) = filter (\<lambda>c. c \<noteq> CHR ''_'') (literal_body s)"
      by (simp add: digit_groups_def concat_str_split)
    have "list_all is_digit (concat (digit_groups s))"
      using v unfolding valid_integer_literal_def by (rule groups_all_digits)
    then have count: "filter is_digit (literal_body s) = concat (digit_groups s)"
      unfolding cat by (rule filter_digits_groups)
    have parse: "parse_digits (digit_value c) r
                   = Some (decimal_value (concat (digit_groups s)))"
    proof -
      have "parse_digits (digit_value c) r
              = Some (foldl (\<lambda>a c. 10 * a + digit_value c) (digit_value c)
                       (filter (\<lambda>c. c \<noteq> CHR ''_'') r))"
        using g by (simp add: parse_digits_groups)
      also have "foldl (\<lambda>a c. 10 * a + digit_value c) (digit_value c)
                   (filter (\<lambda>c. c \<noteq> CHR ''_'') r)
                 = decimal_value (c # filter (\<lambda>c. c \<noteq> CHR ''_'') r)"
        by (simp add: horner_decimal_value decimal_value_Cons)
      also have "c # filter (\<lambda>c. c \<noteq> CHR ''_'') r = concat (digit_groups s)"
        using nu by (simp add: cat Cons)
      finally show ?thesis .
    qed
    have len: "length (concat (digit_groups s)) = Suc (length (filter is_digit r))"
      using arg_cong [OF count, of length] c by (simp add: Cons)
    show ?thesis
      by (simp add: py_int_body Cons c parse len int_accepts_def v
          integer_literal_value_def not_le)
  qed
qed

lemma digit_not_space: "is_digit c \<Longrightarrow> \<not> is_space c"
  by (auto simp: is_digit_def is_space_def)

lemma dropWhile_none: "xs \<noteq> [] \<Longrightarrow> \<not> P (hd xs) \<Longrightarrow> dropWhile P xs = xs"
  by (cases xs) auto

lemma plain_digits_literal:
  assumes "ds \<noteq> []" and "list_all is_digit ds"
  shows "valid_integer_literal ds \<and> integer_literal_value ds = int (decimal_value ds)"
proof -
  from assms(1) obtain c r where ds: "ds = c # r" by (cases ds) auto
  have "CHR ''_'' \<notin> set ds"
    using assms(2) underscore_not_digit by (auto simp: list_all_iff)
  then have split: "str_split CHR ''_'' ds = [ds]"
    by (induction ds) auto
  have c: "is_digit c" and l: "is_digit (last ds)"
    using assms by (auto simp: ds list_all_iff)
  then have sign: "c \<noteq> CHR ''+''" "c \<noteq> CHR ''-''"
    by (auto simp: is_digit_def)
  have "dropWhile is_space ds = ds"
    using digit_not_space [OF c] by (simp add: ds)
  moreover have "dropWhile is_space (rev ds) = rev ds"
    using assms(1) digit_not_space [OF l] by (intro dropWhile_none) (simp_all add: hd_rev)
  ultimately have "py_strip ds = ds"
    by (simp add: py_strip_def)
  with sign have body: "literal_body ds = ds" and neg: "\<not> literal_negative ds"
    by (simp_all add: literal_body_def literal_negative_def ds)
  show ?thesis
    using assms(1,2)
    by (simp add: valid_integer_literal_def integer_literal_value_def digit_groups_def body neg split)
qed

lemma digit_values:
  "map digit_value ''0123456789'' = [0, 1, 2, 3, 4, 5, 6, 7, 8, 9]"
  by (simp add: digit_value_def)

lemma literal_examples:
  "int_accepts 4300 ''42''" "integer_literal_value ''42'' = 42"
  "int_accepts 4300 ''7''" "integer_literal_value ''7'' = 7"
  "int_accepts 4300 '' -1_000 ''" "integer_literal_value '' -1_000 '' = - 1000"
  "\<not> int_accepts 4300 ''abc''" "\<not> valid_integer_literal ''abc''"
  "\<not> valid_integer_literal ''1__0''" "\<not> valid_integer_literal ''0x10''"
  "valid_integer_literal ''12345''" "\<not> int_accepts 4 ''12345''" "int_accepts 0 ''12345''"
  by code_simp+

section \<open>Properties of the argument resolver\<close>

subsection \<open>The loop, one prefix at a time\<close>

lemma loop_append:
  "even (length pre) \<Longrightarrow>
   parse_workflow_inputs_loop env w fn (pre @ post) args tr =
     and_then (parse_workflow_inputs_loop env w fn pre args)
       (\<lambda>a. parse_workflow_inputs_loop env w fn post a) tr"
proof (induction pre arbitrary: args tr rule: induct_list012)
  case 1
  then show ?case by (simp add: and_then_def succeed_def)
next
  case (2 flag)
  then show ?case by simp
next
  case (3 flag v rest)
  then show ?case
    by (auto simp: and_then_def split: prod.splits sum.splits)
qed

lemma loop_success_even:
  "parse_workflow_inputs_loop env w fn toks args tr = (Inr a, tr') \<Longrightarrow> even (length toks)"
proof (induction toks arbitrary: args tr rule: induct_list012)
  case 1
  then show ?case by simp
next
  case (2 flag)
  then show ?case by (simp add: raise_def)
next
  case (3 flag v rest)
  then show ?case
    by (auto simp: and_then_def split: prod.splits sum.splits)
qed

lemma parse_after_prefix:
  assumes "parse_workflow_inputs env pre w fn tr = (Inr args, tr')"
  shows "parse_workflow_inputs env (pre @ post) w fn tr =
           parse_workflow_inputs_loop env w fn post args tr'"
proof -
  have "even (length pre)"
    using assms loop_success_even unfolding parse_workflow_inputs_def by blast
  then show ?thesis
    using assms by (simp add: parse_workflow_inputs_def loop_append and_then_def)
qed

lemma parse_prefix_fails:
  assumes "even (length pre)" "parse_workflow_inputs env pre w fn tr = (Inl e, tr')"
  shows "parse_workflow_inputs env (pre @ post) w fn tr = (Inl e, tr')"
  using assms by (simp add: parse_workflow_inputs_def loop_append and_then_def)

lemma parse_no_tokens:
  "parse_workflow_inputs env [] w fn tr = (Inr Map.empty, tr)"
  by (simp add: parse_workflow_inputs_def succeed_def)

subsection \<open>The example, evaluated\<close>

lemma example_guess_simps:
  "example_guess ''STRING'' = Inr PyStr"
  "example_guess ''INTEGER'' = Inr PyInt"
  "example_guess ''STRUCTURED_DATASET'' = Inr PyStructuredDataset"
  "example_guess ''FLOAT'' = Inr (PyOther ''FLOAT'')"
  by (simp_all add: example_guess_def)

lemma example_wf_simps:
  "interface_inputs example_wf ''name'' = Some ''STRING''"
  "interface_inputs example_wf ''count'' = Some ''INTEGER''"
  "interface_inputs example_wf ''df'' = Some ''STRUCTURED_DATASET''"
  "interface_inputs example_wf ''ratio'' = Some ''FLOAT''"
  by (simp_all add: example_wf_def)

lemma example_env_simps:
  "fails example_env tr ev = None"
  "guess_python_type example_env = example_guess"
  "create_upload_location example_env tr project domain suffix = Inr (example_location (length tr))"
  "int_max_str_digits example_env = 4300"
  by (simp_all add: example_env_def)

lemma py_int_examples:
  "py_int 4300 ''42'' = Some 42"
  "py_int 4300 ''7'' = Some 7"
  "py_int 4300 ''abc'' = None"
  by (simp_all add: py_int_spec literal_examples)

subsection \<open>Structured datasets\<close>

text \<open>
  Claim C1. When the resolver reaches an argument declared as a structured dataset
  (the pairs before it resolved, the client returns a location and the transfer does
  not fail), it asks for one upload location and makes one transfer, of the raw value
  as the local path to the signed URL of that location, and it stores the dataset of
  the native URL of the location: the trace grows by exactly these two calls.
\<close>

theorem structured_dataset_argument_staged_once:
  assumes "parse_workflow_inputs env pre w (PartialCreateUploadLocation project domain) tr
             = (Inr args, tr')"
    and "interface_inputs w (drop 2 flag) = Some t"
    and "guess_python_type env t = Inr PyStructuredDataset"
    and "create_upload_location env tr' project domain None = Inr loc"
    and "fails env (tr' @ [CreateUploadLocation project domain None])
           (PutData v (signed_url loc)) = None"
  shows "parse_workflow_inputs env (pre @ [flag, v]) w (PartialCreateUploadLocation project domain) tr
           = (Inr (args(drop 2 flag \<mapsto> VStructuredDataset (native_url loc))),
              tr' @ [CreateUploadLocation project domain None, PutData v (signed_url loc)])"
  using assms(2-5)
  by (simp add: parse_after_prefix [OF assms(1)] and_then_def resolve_argument_def raise_def
      succeed_def call_def call_unit_def)

theorem structured_dataset_argument_staged_once_witness:
  "parse_workflow_inputs example_env [''--df'', ''/local/data.csv''] example_wf
     (PartialCreateUploadLocation ''flytesnacks'' ''development'') []
     = (Inr [''df'' \<mapsto> VStructuredDataset ''s3://bucket/''],
        [CreateUploadLocation ''flytesnacks'' ''development'' None,
         PutData ''/local/data.csv'' ''https://signed/''])"
proof -
  have h1: "parse_workflow_inputs example_env [] example_wf
              (PartialCreateUploadLocation ''flytesnacks'' ''development'') [] = (Inr Map.empty, [])"
    by (simp add: parse_no_tokens)
  have h2: "interface_inputs example_wf (drop 2 ''--df'') = Some ''STRUCTURED_DATASET''"
    by (simp add: example_wf_simps)
  have h3: "guess_python_type example_env ''STRUCTURED_DATASET'' = Inr PyStructuredDataset"
    by (simp add: example_env_simps example_guess_simps)
  have h4: "create_upload_location example_env [] ''flytesnacks'' ''development'' None
              = Inr (example_location 0)"
    by (simp add: example_env_simps)
  have h5: "fails example_env ([] @ [CreateUploadLocation ''flytesnacks'' ''development'' None])
              (PutData ''/local/data.csv'' (signed_url (example_location 0))) = None"
    by (simp add: example_env_simps)
  from structured_dataset_argument_staged_once [OF h1 h2 h3 h4 h5]
  show ?thesis by (simp add: example_location_def)
qed

subsection \<open>Integers\<close>



subsection \<open>Failures of the resolver\<close>

text \<open>
  Claim C5. A pair whose name, without its two-character prefix, is not in the
  interface makes the resolution fail; when the pairs before it resolved, the failure
  is the \<^verbatim>\<open>KeyError\<close> of that name, raised at that pair: the trace is the one the
  earlier pairs left, and no later token is read.
\<close>

theorem undeclared_argument_lookup_error:
  assumes "even (length pre)" and "interface_inputs w (drop 2 flag) = None"
  shows "isl (fst (parse_workflow_inputs env (pre @ flag # v # post) w fn tr))
       \<and> (\<forall>args tr'. parse_workflow_inputs env pre w fn tr = (Inr args, tr')
            \<longrightarrow> parse_workflow_inputs env (pre @ flag # v # post) w fn tr
                = (Inl (KeyError (drop 2 flag)), tr'))"
proof -
  have step: "parse_workflow_inputs_loop env w fn (flag # v # post) args tr'
                = (Inl (KeyError (drop 2 flag)), tr')" for args tr'
    using assms(2) by (simp add: and_then_def resolve_argument_def raise_def)
  obtain r tr' where r: "parse_workflow_inputs env pre w fn tr = (r, tr')"
    by (cases "parse_workflow_inputs env pre w fn tr")
  show ?thesis
  proof (cases r)
    case (Inl e)
    with r assms(1) show ?thesis by (simp add: parse_prefix_fails)
  next
    case (Inr args)
    with r show ?thesis
      by (simp add: parse_after_prefix step del: parse_workflow_inputs_loop.simps)
  qed
qed

theorem undeclared_argument_lookup_error_witness:
  "even (length ([] :: string list))
   \<and> interface_inputs empty_wf (drop 2 ''--missing'') = None
   \<and> parse_workflow_inputs example_env [''--missing'', ''x''] empty_wf example_fn []
       = (Inl (KeyError ''missing''), [])"
proof -
  have h1: "even (length ([] :: string list))" by simp
  have h2: "interface_inputs empty_wf (drop 2 ''--missing'') = None"
    by (simp add: empty_wf_def)
  from undeclared_argument_lookup_error [OF h1 h2, of example_env "''x''" "[]" example_fn "[]"]
  have "parse_workflow_inputs example_env [''--missing'', ''x''] empty_wf example_fn []
          = (Inl (KeyError (drop 2 ''--missing'')), [])"
    by (simp add: parse_no_tokens)
  with h1 h2 show ?thesis by simp
qed

text \<open>
  Claim C6. A pair whose declared type is none of \<^verbatim>\<open>str\<close>, \<^verbatim>\<open>int\<close> and
  \<^verbatim>\<open>StructuredDataset\<close> makes the resolution fail; when the pairs before it resolved,
  the failure is a \<^verbatim>\<open>ValueError\<close> whose message ends with the name of the argument.
\<close>

theorem unsupported_type_error_names_argument:
  assumes "even (length pre)"
    and "interface_inputs w (drop 2 flag) = Some t"
    and "guess_python_type env t = Inr p"
    and "p \<noteq> PyStr" and "p \<noteq> PyInt" and "p \<noteq> PyStructuredDataset"
  shows "isl (fst (parse_workflow_inputs env (pre @ flag # v # post) w fn tr))
       \<and> (\<forall>args tr'. parse_workflow_inputs env pre w fn tr = (Inr args, tr')
            \<longrightarrow> parse_workflow_inputs env (pre @ flag # v # post) w fn tr
                = (Inl (ValueError (Message (''Unsupported type for argument '' @ drop 2 flag))),
                   tr'))"
proof -
  have step: "parse_workflow_inputs_loop env w fn (flag # v # post) args tr'
                = (Inl (ValueError (Message (''Unsupported type for argument '' @ drop 2 flag))), tr')"
    for args tr'
    using assms(2-6) by (simp add: and_then_def resolve_argument_def raise_def)
  obtain r tr' where r: "parse_workflow_inputs env pre w fn tr = (r, tr')"
    by (cases "parse_workflow_inputs env pre w fn tr")
  show ?thesis
  proof (cases r)
    case (Inl e)
    with r assms(1) show ?thesis by (simp add: parse_prefix_fails)
  next
    case (Inr args)
    with r show ?thesis
      by (simp add: parse_after_prefix step del: parse_workflow_inputs_loop.simps)
  qed
qed

theorem unsupported_type_error_names_argument_witness:
  "parse_workflow_inputs example_env [''--ratio'', ''0.5''] example_wf example_fn []
     = (Inl (ValueError (Message ''Unsupported type for argument ratio'')), [])"
proof -
  have h1: "even (length ([] :: string list))" by simp
  have h2: "interface_inputs example_wf (drop 2 ''--ratio'') = Some ''FLOAT''"
    by (simp add: example_wf_simps)
  have h3: "guess_python_type example_env ''FLOAT'' = Inr (PyOther ''FLOAT'')"
    by (simp add: example_env_simps example_guess_simps)
  from unsupported_type_error_names_argument [OF h1 h2 h3, of "''0.5''" "[]" example_fn "[]"]
  show ?thesis by (simp add: parse_no_tokens)
qed

text \<open>
  Claim C10. A token list of odd length never resolves; when the complete pairs
  before the last flag resolved, the failure is the \<^verbatim>\<open>IndexError\<close> of the read after
  the last flag, and the trace holds the calls the earlier pairs made.
\<close>

theorem dangling_flag_index_error:
  assumes "odd (length tokens)"
  shows "isl (fst (parse_workflow_inputs env tokens w fn tr))
       \<and> (\<forall>args tr'. parse_workflow_inputs env (butlast tokens) w fn tr = (Inr args, tr')
            \<longrightarrow> parse_workflow_inputs env tokens w fn tr = (Inl IndexError, tr'))"
proof -
  from assms have ne: "tokens \<noteq> []" by auto
  then have split: "tokens = butlast tokens @ [last tokens]" by simp
  have ev: "even (length (butlast tokens))" using assms ne by simp
  obtain r tr' where r: "parse_workflow_inputs env (butlast tokens) w fn tr = (r, tr')"
    by (cases "parse_workflow_inputs env (butlast tokens) w fn tr")
  show ?thesis
  proof (cases r)
    case (Inl e)
    with r ev have "parse_workflow_inputs env (butlast tokens @ [last tokens]) w fn tr = (Inl e, tr')"
      by (simp add: parse_prefix_fails)
    with split r Inl show ?thesis by simp
  next
    case (Inr args)
    with r have "parse_workflow_inputs env (butlast tokens @ [last tokens]) w fn tr
                   = (Inl IndexError, tr')"
      by (simp add: parse_after_prefix raise_def)
    with split r Inr show ?thesis by simp
  qed
qed

theorem dangling_flag_index_error_witness:
  "odd (length [''--df'', ''/local/data.csv'', ''--name''])
   \<and> parse_workflow_inputs example_env [''--df'', ''/local/data.csv'', ''--name''] example_wf
        example_fn []
       = (Inl IndexError,
          [CreateUploadLocation ''flytesnacks'' ''development'' None,
           PutData ''/local/data.csv'' ''https://signed/''])"
proof -
  have h1: "odd (length [''--df'', ''/local/data.csv'', ''--name''])" by simp
  have h2: "parse_workflow_inputs example_env (butlast [''--df'', ''/local/data.csv'', ''--name''])
              example_wf example_fn []
            = (Inr [''df'' \<mapsto> VStructuredDataset ''s3://bucket/''],
               [CreateUploadLocation ''flytesnacks'' ''development'' None,
                PutData ''/local/data.csv'' ''https://signed/''])"
    by (simp add: parse_workflow_inputs_def and_then_def resolve_argument_def succeed_def
        call_def call_unit_def example_fn_def example_location_def
        example_wf_simps example_env_simps example_guess_simps)
  from dangling_flag_index_error [OF h1, of example_env example_wf example_fn "[]"] h2
  show ?thesis by simp
qed

subsection \<open>Text and integers, and the keys of the result\<close>

lemma resolve_text_or_integer:
  assumes "text_or_integer_value env w a v = Some x"
  shows "resolve_argument env w fn a v tr = (Inr x, tr)"
  using assms
  by (auto simp: text_or_integer_value_def declared_python_type_def resolve_argument_def
      succeed_def raise_def py_int_spec
      split: option.splits sum.splits python_type.splits if_splits)

lemma loop_text_integer:
  "those (map (\<lambda>(a, v). map_option (Pair a) (text_or_integer_value env w a v)) (token_pairs toks))
     = Some cps \<Longrightarrow> even (length toks) \<Longrightarrow>
   parse_workflow_inputs_loop env w fn toks args tr = (Inr (args ++ map_of (rev cps)), tr)"
proof (induction toks arbitrary: args cps rule: induct_list012)
  case 1
  then show ?case by (simp add: succeed_def)
next
  case (2 flag)
  then show ?case by simp
next
  case (3 flag v rest)
  from "3.prems"(1) obtain x cps' where
    x: "text_or_integer_value env w (drop 2 flag) v = Some x" and
    rest: "those (map (\<lambda>(a, v). map_option (Pair a) (text_or_integer_value env w a v))
             (token_pairs rest)) = Some cps'" and
    cps: "cps = (drop 2 flag, x) # cps'"
    by (auto split: option.splits)
  from "3.prems"(2) have ev: "even (length rest)" by simp
  have "parse_workflow_inputs_loop env w fn rest (args(drop 2 flag \<mapsto> x)) tr
          = (Inr (args(drop 2 flag \<mapsto> x) ++ map_of (rev cps')), tr)"
    using "3.IH"(1) [OF rest ev] .
  moreover have "args(drop 2 flag \<mapsto> x) ++ map_of (rev cps') = args ++ map_of (rev cps)"
    by (simp add: cps map_of_append fun_eq_iff map_add_def split: option.splits)
  ultimately show ?case
    by (simp add: and_then_def resolve_text_or_integer [OF x])
qed

lemma loop_dom:
  "parse_workflow_inputs_loop env w fn toks args tr = (Inr m, tr') \<Longrightarrow>
   dom m = dom args \<union> fst ` set (token_pairs toks)"
proof (induction toks arbitrary: args tr rule: induct_list012)
  case 1
  then show ?case by (simp add: succeed_def)
next
  case (2 flag)
  then show ?case by (simp add: raise_def)
next
  case (3 flag v rest)
  then show ?case
    by (auto simp: and_then_def split: prod.splits sum.splits)
qed

lemma token_pairs_indices:
  "set (token_pairs toks) =
     {(drop 2 (toks ! (2 * k)), toks ! (2 * k + 1)) | k. 2 * k + 1 < length toks}"
proof (induction toks rule: induct_list012)
  case 1
  then show ?case by simp
next
  case (2 flag)
  then show ?case by simp
next
  case (3 flag v rest)
  have "{(drop 2 ((flag # v # rest) ! (2 * k)), (flag # v # rest) ! (2 * k + 1)) | k.
          2 * k + 1 < length (flag # v # rest)}
        = insert (drop 2 flag, v)
            {(drop 2 (rest ! (2 * k)), rest ! (2 * k + 1)) | k. 2 * k + 1 < length rest}"
    (is "?L = insert ?p ?R")
  proof (rule set_eqI)
    fix z
    show "z \<in> ?L \<longleftrightarrow> z \<in> insert ?p ?R"
    proof
      assume "z \<in> ?L"
      then obtain k where k: "z = (drop 2 ((flag # v # rest) ! (2 * k)), (flag # v # rest) ! (2 * k + 1))"
        "2 * k + 1 < length (flag # v # rest)" by blast
      show "z \<in> insert ?p ?R"
      proof (cases k)
        case 0
        with k show ?thesis by simp
      next
        case (Suc j)
        with k have "z = (drop 2 (rest ! (2 * j)), rest ! (2 * j + 1))" "2 * j + 1 < length rest"
          by simp_all
        then show ?thesis by blast
      qed
    next
      assume "z \<in> insert ?p ?R"
      then consider "z = ?p" | "z \<in> ?R" by blast
      then show "z \<in> ?L"
      proof cases
        case 1
        then have "z = (drop 2 ((flag # v # rest) ! (2 * 0)), (flag # v # rest) ! (2 * 0 + 1))
                   \<and> 2 * 0 + 1 < length (flag # v # rest)" by simp
        then show ?thesis by blast
      next
        case 2
        then obtain j where "z = (drop 2 (rest ! (2 * j)), rest ! (2 * j + 1))" "2 * j + 1 < length rest"
          by blast
        then have "z = (drop 2 ((flag # v # rest) ! (2 * Suc j)), (flag # v # rest) ! (2 * Suc j + 1))
                   \<and> 2 * Suc j + 1 < length (flag # v # rest)" by simp
        then show ?thesis by blast
      qed
    qed
  qed
  with 3 show ?case by simp
qed

lemma those_map_nth:
  "those (map f xs) = Some ys \<Longrightarrow>
   length ys = length xs \<and> (\<forall>i < length xs. f (xs ! i) = Some (ys ! i))"
proof (induction xs arbitrary: ys)
  case Nil
  then show ?case by simp
next
  case (Cons x xs)
  then obtain y ys' where y: "f x = Some y" "those (map f xs) = Some ys'" "ys = y # ys'"
    by (auto split: option.splits)
  from Cons.IH [OF y(2)] y show ?case
    by (auto simp: nth_Cons split: nat.splits)
qed

lemma map_of_rev_last_occurrence:
  "i < length xs \<Longrightarrow> (\<forall>j. i < j \<and> j < length xs \<longrightarrow> fst (xs ! j) \<noteq> fst (xs ! i)) \<Longrightarrow>
   map_of (rev xs) (fst (xs ! i)) = Some (snd (xs ! i))"
proof (induction xs arbitrary: i)
  case Nil
  then show ?case by simp
next
  case (Cons x xs)
  show ?case
  proof (cases i)
    case 0
    have "fst x \<notin> fst ` set xs"
    proof
      assume "fst x \<in> fst ` set xs"
      then obtain j where "j < length xs" "fst (xs ! j) = fst x"
        by (auto simp: in_set_conv_nth)
      with Cons.prems(2) 0 show False by (auto dest: spec [of _ "Suc j"])
    qed
    then have "map_of (rev xs) (fst x) = None"
      by (simp add: map_of_eq_None_iff)
    with 0 show ?thesis by (simp add: map_of_append map_add_def)
  next
    case (Suc k)
    with Cons.prems have k: "k < length xs"
      and later: "\<forall>j. k < j \<and> j < length xs \<longrightarrow> fst (xs ! j) \<noteq> fst (xs ! k)"
      by (auto dest: spec [of _ "Suc j" for j])
    from Cons.IH [OF k later] Suc show ?thesis
      by (simp add: map_of_append map_add_def)
  qed
qed

lemma those_total:
  "\<forall>p \<in> set ps. \<exists>y. f p = Some y \<Longrightarrow> \<exists>ys. those (map f ps) = Some ys"
  by (induction ps) (auto split: option.splits)

lemma stripped_names_of_pairs:
  assumes "even (length tokens)"
  shows "fst ` set (token_pairs tokens) = {drop 2 (tokens ! (2 * k)) | k. 2 * k < length tokens}"
proof -
  have eq: "2 * k + 1 < length tokens \<longleftrightarrow> 2 * k < length tokens" for k
    using assms by presburger
  have "fst ` set (token_pairs tokens)
          = fst ` {(drop 2 (tokens ! (2 * k)), tokens ! (2 * k + 1)) | k. 2 * k + 1 < length tokens}"
    by (simp only: token_pairs_indices)
  also have "\<dots> = {drop 2 (tokens ! (2 * k)) | k. 2 * k + 1 < length tokens}"
    by force
  also have "\<dots> = {drop 2 (tokens ! (2 * k)) | k. 2 * k < length tokens}"
    by (simp only: eq)
  finally show ?thesis .
qed

lemma example_declared_types:
  "declared_python_type example_env example_wf ''name'' = Some PyStr"
  "declared_python_type example_env example_wf ''count'' = Some PyInt"
  "declared_python_type example_env example_wf ''df'' = Some PyStructuredDataset"
  by (simp_all add: declared_python_type_def example_wf_simps example_env_simps example_guess_simps)

text \<open>
  Claim C2, as amended. For a token list of even length whose names are all declared
  with the text or the integer type and whose integer values are all accepted by
  \<^verbatim>\<open>int\<close>, the resolver succeeds and returns the map of the independent conversions of
  the pairs: its keys are exactly the names given (each flag without its first two
  characters), and a name maps to the conversion of the value of its last pair. The
  claim as stated fails when an integer value does not parse.
\<close>

theorem text_and_integer_arguments_resolve_independently:
  assumes "even (length tokens)"
    and "\<forall>(a, v) \<in> set (token_pairs tokens).
           declared_python_type env w a = Some PyStr
           \<or> (declared_python_type env w a = Some PyInt
               \<and> int_accepts (int_max_str_digits env) v)"
  shows "\<exists>cps. independent_conversions env w tokens = Some cps
           \<and> parse_workflow_inputs env tokens w fn tr = (Inr (map_of (rev cps)), tr)
           \<and> dom (map_of (rev cps)) = {drop 2 (tokens ! (2 * k)) | k. 2 * k < length tokens}
           \<and> (\<forall>i < length (token_pairs tokens).
                (\<forall>j. i < j \<and> j < length (token_pairs tokens)
                     \<longrightarrow> fst (token_pairs tokens ! j) \<noteq> fst (token_pairs tokens ! i))
                \<longrightarrow> map_of (rev cps) (fst (token_pairs tokens ! i))
                    = text_or_integer_value env w (fst (token_pairs tokens ! i))
                        (snd (token_pairs tokens ! i)))"
proof -
  define f where "f = (\<lambda>(a, v). map_option (Pair a) (text_or_integer_value env w a v))"
  define ps where "ps = token_pairs tokens"
  have f_pair: "f (a, v) = map_option (Pair a) (text_or_integer_value env w a v)" for a v
    by (simp add: f_def)
  have conv: "\<exists>y. f p = Some y" if "p \<in> set ps" for p
  proof -
    obtain a v where p: "p = (a, v)" by (cases p)
    with that assms(2) have
      "declared_python_type env w a = Some PyStr
       \<or> (declared_python_type env w a = Some PyInt
               \<and> int_accepts (int_max_str_digits env) v)"
      unfolding ps_def by blast
    then have "\<exists>x. text_or_integer_value env w a v = Some x"
      by (auto simp: text_or_integer_value_def)
    then show ?thesis by (auto simp: p f_pair)
  qed
  then obtain cps where cps: "those (map f ps) = Some cps"
    using those_total [of ps f] by blast
  then have ic: "independent_conversions env w tokens = Some cps"
    by (simp add: independent_conversions_def f_def ps_def)
  have run: "parse_workflow_inputs env tokens w fn tr = (Inr (map_of (rev cps)), tr)"
    using loop_text_integer [of env w tokens cps fn Map.empty tr] cps assms(1)
    by (simp add: parse_workflow_inputs_def f_def ps_def)
  have len: "length cps = length ps"
    and nth: "\<And>i. i < length ps \<Longrightarrow> f (ps ! i) = Some (cps ! i)"
    using those_map_nth [OF cps] by simp_all
  have fst_eq: "fst (cps ! i) = fst (ps ! i)"
    and snd_eq: "text_or_integer_value env w (fst (ps ! i)) (snd (ps ! i)) = Some (snd (cps ! i))"
    if "i < length ps" for i
  proof -
    obtain a v where p: "ps ! i = (a, v)" by (cases "ps ! i")
    from nth [OF that] p have "map_option (Pair a) (text_or_integer_value env w a v) = Some (cps ! i)"
      by (simp add: f_pair)
    then obtain x where "text_or_integer_value env w a v = Some x" "cps ! i = (a, x)"
      by auto
    with p show "fst (cps ! i) = fst (ps ! i)"
      and "text_or_integer_value env w (fst (ps ! i)) (snd (ps ! i)) = Some (snd (cps ! i))"
      by simp_all
  qed
  have "dom (map_of (rev cps)) = fst ` set (token_pairs tokens)"
    using loop_dom [of env w fn tokens Map.empty tr "map_of (rev cps)" tr] run
    by (simp add: parse_workflow_inputs_def)
  then have d: "dom (map_of (rev cps)) = {drop 2 (tokens ! (2 * k)) | k. 2 * k < length tokens}"
    by (simp only: stripped_names_of_pairs [OF assms(1)])
  have pt: "map_of (rev cps) (fst (ps ! i)) = text_or_integer_value env w (fst (ps ! i)) (snd (ps ! i))"
    if i: "i < length ps"
      and later: "\<forall>j. i < j \<and> j < length ps \<longrightarrow> fst (ps ! j) \<noteq> fst (ps ! i)" for i
  proof -
    have "\<forall>j. i < j \<and> j < length cps \<longrightarrow> fst (cps ! j) \<noteq> fst (cps ! i)"
    proof (intro allI impI)
      fix j assume j: "i < j \<and> j < length cps"
      with len have "j < length ps" by simp
      with j later fst_eq [OF i] fst_eq [of j] show "fst (cps ! j) \<noteq> fst (cps ! i)" by simp
    qed
    moreover have "i < length cps" using i len by simp
    ultimately have "map_of (rev cps) (fst (cps ! i)) = Some (snd (cps ! i))"
      by (rule map_of_rev_last_occurrence [rotated])
    with fst_eq [OF i] snd_eq [OF i] show ?thesis by simp
  qed
  show ?thesis
  proof (intro exI conjI allI impI)
    show "independent_conversions env w tokens = Some cps" by (rule ic)
    show "parse_workflow_inputs env tokens w fn tr = (Inr (map_of (rev cps)), tr)" by (rule run)
    show "dom (map_of (rev cps)) = {drop 2 (tokens ! (2 * k)) | k. 2 * k < length tokens}" by (rule d)
  next
    fix i
    assume "i < length (token_pairs tokens)"
      and "\<forall>j. i < j \<and> j < length (token_pairs tokens)
             \<longrightarrow> fst (token_pairs tokens ! j) \<noteq> fst (token_pairs tokens ! i)"
    then show "map_of (rev cps) (fst (token_pairs tokens ! i))
                 = text_or_integer_value env w (fst (token_pairs tokens ! i))
                     (snd (token_pairs tokens ! i))"
      using pt [of i] by (simp add: ps_def)
  qed
qed

theorem text_and_integer_arguments_resolve_independently_witness:
  "even (length [''--name'', ''x'', ''--count'', ''42''])
   \<and> parse_workflow_inputs example_env [''--name'', ''x'', ''--count'', ''42''] example_wf
         example_fn []
       = (Inr [''name'' \<mapsto> VStr ''x'', ''count'' \<mapsto> VInt 42], [])"
proof -
  have h1: "even (length [''--name'', ''x'', ''--count'', ''42''])" by simp
  have h2: "\<forall>(a, v) \<in> set (token_pairs [''--name'', ''x'', ''--count'', ''42'']).
              declared_python_type example_env example_wf a = Some PyStr
              \<or> (declared_python_type example_env example_wf a = Some PyInt
                  \<and> int_accepts (int_max_str_digits example_env) v)"
    by (simp add: example_declared_types literal_examples example_env_simps)
  have ic: "independent_conversions example_env example_wf [''--name'', ''x'', ''--count'', ''42'']
              = Some [(''name'', VStr ''x''), (''count'', VInt 42)]"
    by (simp add: independent_conversions_def text_or_integer_value_def example_declared_types
        literal_examples example_env_simps)
  from text_and_integer_arguments_resolve_independently [OF h1 h2, of example_fn "[]"] ic
  have "parse_workflow_inputs example_env [''--name'', ''x'', ''--count'', ''42''] example_wf
          example_fn []
        = (Inr (map_of (rev [(''name'', VStr ''x''), (''count'', VInt 42)])), [])"
    by auto
  with h1 show ?thesis by simp
qed

theorem unparsable_integer_stops_resolution:
  "even (length [''--count'', ''abc''])
   \<and> declared_python_type example_env example_wf (drop 2 ''--count'') = Some PyInt
   \<and> parse_workflow_inputs example_env [''--count'', ''abc''] example_wf example_fn []
       = (Inl (ValueError (IntConversion ''abc'')), [])"
  by (simp add: example_declared_types parse_workflow_inputs_def and_then_def
      resolve_argument_def raise_def example_wf_simps example_env_simps example_guess_simps
      py_int_examples)

text \<open>
  Claim C9, as amended. A resolved value is stored under the name of its flag without
  the first two characters, the name that was looked up in the interface: the keys of
  the result are exactly these names. The claim as stated (the key keeps the prefix)
  fails for the pair \<open>--count 42\<close>, whose key is \<open>count\<close>.
\<close>

theorem resolved_value_stored_under_stripped_name:
  assumes "parse_workflow_inputs env (pre @ [flag, v]) w fn tr = (Inr m, tr'')"
  shows "(\<exists>args tr' x. parse_workflow_inputs env pre w fn tr = (Inr args, tr')
            \<and> resolve_argument env w fn (drop 2 flag) v tr' = (Inr x, tr'')
            \<and> m = args(drop 2 flag \<mapsto> x))
       \<and> dom m = {drop 2 ((pre @ [flag, v]) ! (2 * k)) | k. 2 * k < length (pre @ [flag, v])}"
proof -
  have ev_all: "even (length (pre @ [flag, v]))"
    using assms loop_success_even unfolding parse_workflow_inputs_def by blast
  then have ev: "even (length pre)" by simp
  obtain r tr' where r: "parse_workflow_inputs env pre w fn tr = (r, tr')"
    by (cases "parse_workflow_inputs env pre w fn tr")
  have "\<exists>args. r = Inr args"
  proof (cases r)
    case (Inl e)
    with r ev have "parse_workflow_inputs env (pre @ [flag, v]) w fn tr = (Inl e, tr')"
      by (simp add: parse_prefix_fails)
    with assms show ?thesis by simp
  qed simp
  then obtain args where args: "parse_workflow_inputs env pre w fn tr = (Inr args, tr')"
    using r by blast
  from parse_after_prefix [OF args, of "[flag, v]"] assms
  have step: "and_then (resolve_argument env w fn (drop 2 flag) v)
                (\<lambda>x. succeed (args(drop 2 flag \<mapsto> x))) tr' = (Inr m, tr'')"
    by simp
  then obtain x where x: "resolve_argument env w fn (drop 2 flag) v tr' = (Inr x, tr'')"
    "m = args(drop 2 flag \<mapsto> x)"
    by (auto simp: and_then_def succeed_def split: prod.splits sum.splits)
  have "dom m = fst ` set (token_pairs (pre @ [flag, v]))"
    using loop_dom [of env w fn "pre @ [flag, v]" Map.empty tr m tr''] assms
    by (simp add: parse_workflow_inputs_def)
  then have "dom m = {drop 2 ((pre @ [flag, v]) ! (2 * k)) | k. 2 * k < length (pre @ [flag, v])}"
    by (simp only: stripped_names_of_pairs [OF ev_all])
  with args x show ?thesis by blast
qed

theorem count_flag_stored_without_prefix:
  "parse_workflow_inputs example_env [''--count'', ''42''] example_wf example_fn []
     = (Inr [''count'' \<mapsto> VInt 42], [])
   \<and> ''--count'' \<notin> dom [''count'' \<mapsto> VInt 42]"
  by (simp add: parse_workflow_inputs_def and_then_def resolve_argument_def succeed_def
      example_wf_simps example_env_simps example_guess_simps py_int_examples)

theorem resolved_value_stored_under_stripped_name_witness:
  "parse_workflow_inputs example_env ([] @ [''--count'', ''42'']) example_wf example_fn []
     = (Inr [''count'' \<mapsto> VInt 42], [])
   \<and> (\<exists>args x. [''count'' \<mapsto> VInt 42] = args(drop 2 ''--count'' \<mapsto> x))
   \<and> dom [''count'' \<mapsto> VInt 42] = {''count''}"
proof -
  have h: "parse_workflow_inputs example_env ([] @ [''--count'', ''42'']) example_wf example_fn []
             = (Inr [''count'' \<mapsto> VInt 42], [])"
    by (simp add: parse_workflow_inputs_def and_then_def resolve_argument_def succeed_def
        example_wf_simps example_env_simps example_guess_simps py_int_examples)
  from resolved_value_stored_under_stripped_name [OF h] have "\<exists>args x. [''count'' \<mapsto> VInt 42] = args(drop 2 ''--count'' \<mapsto> x)"
    by blast
  with h show ?thesis by simp
qed

subsection \<open>The order of the calls\<close>

lemma resolve_argument_success:
  assumes "resolve_argument env w (PartialCreateUploadLocation p d) a v tr = (Inr x, tr1)"
  shows "(declared_python_type env w a = Some PyStructuredDataset
          \<and> (\<exists>loc. create_upload_location env tr p d None = Inr loc
                \<and> tr1 = tr @ [CreateUploadLocation p d None, PutData v (signed_url loc)]
                \<and> x = VStructuredDataset (native_url loc)))
       \<or> (declared_python_type env w a \<noteq> Some PyStructuredDataset \<and> tr1 = tr)"
  using assms
  by (auto simp: resolve_argument_def declared_python_type_def and_then_def call_def call_unit_def
      succeed_def raise_def split: option.splits sum.splits if_splits prod.splits)

lemma loop_trace:
  "parse_workflow_inputs_loop env w (PartialCreateUploadLocation p d) toks args tr = (Inr m, tr') \<Longrightarrow>
   \<exists>locs. length locs = length (structured_dataset_values env w toks)
     \<and> tr' = tr @ concat (map2 (\<lambda>v loc. [CreateUploadLocation p d None, PutData v (signed_url loc)])
                          (structured_dataset_values env w toks) locs)
     \<and> (\<forall>k < length locs.
           create_upload_location env
             (tr @ concat (map2 (\<lambda>v loc. [CreateUploadLocation p d None, PutData v (signed_url loc)])
                             (take k (structured_dataset_values env w toks)) (take k locs)))
             p d None = Inr (locs ! k))"
proof (induction toks arbitrary: args tr rule: induct_list012)
  case 1
  then show ?case by (simp add: succeed_def structured_dataset_values_def)
next
  case (2 flag)
  then show ?case by (simp add: raise_def)
next
  case (3 flag v rest)
  let ?ev = "\<lambda>v loc. [CreateUploadLocation p d None :: ('a, 'b) event, PutData v (signed_url loc)]"
  let ?sdv = "structured_dataset_values env w"
  from "3.prems" obtain x tr1 where
    res: "resolve_argument env w (PartialCreateUploadLocation p d) (drop 2 flag) v tr = (Inr x, tr1)"
    and rest: "parse_workflow_inputs_loop env w (PartialCreateUploadLocation p d) rest
                 (args(drop 2 flag \<mapsto> x)) tr1 = (Inr m, tr')"
    by (auto simp: and_then_def split: prod.splits sum.splits)
  from "3.IH"(1) [OF rest] obtain locs where
    len: "length locs = length (?sdv rest)"
    and tr': "tr' = tr1 @ concat (map2 ?ev (?sdv rest) locs)"
    and pin: "\<forall>k < length locs.
                create_upload_location env (tr1 @ concat (map2 ?ev (take k (?sdv rest)) (take k locs)))
                  p d None = Inr (locs ! k)"
    by blast
  from resolve_argument_success [OF res] show ?case
  proof (elim disjE conjE exE)
    fix loc
    assume sd: "declared_python_type env w (drop 2 flag) = Some PyStructuredDataset"
      and loc: "create_upload_location env tr p d None = Inr loc"
      and tr1: "tr1 = tr @ [CreateUploadLocation p d None, PutData v (signed_url loc)]"
    from sd have sdv: "?sdv (flag # v # rest) = v # ?sdv rest"
      by (simp add: structured_dataset_values_def)
    have "\<forall>k < length (loc # locs).
            create_upload_location env
              (tr @ concat (map2 ?ev (take k (?sdv (flag # v # rest))) (take k (loc # locs))))
              p d None = Inr ((loc # locs) ! k)"
    proof (intro allI impI)
      fix k assume k: "k < length (loc # locs)"
      show "create_upload_location env
              (tr @ concat (map2 ?ev (take k (?sdv (flag # v # rest))) (take k (loc # locs))))
              p d None = Inr ((loc # locs) ! k)"
      proof (cases k)
        case 0
        with loc show ?thesis by simp
      next
        case (Suc j)
        with k have "j < length locs" by simp
        with pin Suc show ?thesis by (simp add: sdv tr1)
      qed
    qed
    moreover have "length (loc # locs) = length (?sdv (flag # v # rest))"
      by (simp add: sdv len)
    moreover have "tr' = tr @ concat (map2 ?ev (?sdv (flag # v # rest)) (loc # locs))"
      by (simp add: sdv tr' tr1)
    ultimately show ?thesis by blast
  next
    assume nsd: "declared_python_type env w (drop 2 flag) \<noteq> Some PyStructuredDataset"
      and tr1: "tr1 = tr"
    from nsd have sdv: "?sdv (flag # v # rest) = ?sdv rest"
      by (simp add: structured_dataset_values_def)
    from len tr' pin show ?thesis
      unfolding sdv tr1 by blast
  qed
qed

text \<open>
  Claim C8. In a successful resolution the calls are made in token order: the trace
  grows by one request for an upload location followed by one transfer for each
  argument declared as a structured dataset, in the order of these arguments among the
  tokens; the \<open>k\<close>-th request is answered with the \<open>k\<close>-th location, from the history
  of the calls made for the arguments before it, and the \<open>k\<close>-th transfer sends the
  value of the \<open>k\<close>-th such argument to the signed URL of that location.
\<close>

theorem upload_locations_requested_in_token_order:
  assumes "parse_workflow_inputs env tokens w (PartialCreateUploadLocation project domain) tr
             = (Inr m, tr')"
  shows "\<exists>locs. length locs = length (structured_dataset_values env w tokens)
     \<and> tr' = tr @ concat (map2 (\<lambda>v loc. [CreateUploadLocation project domain None,
                                            PutData v (signed_url loc)])
                          (structured_dataset_values env w tokens) locs)
     \<and> (\<forall>k < length locs.
           create_upload_location env
             (tr @ concat (map2 (\<lambda>v loc. [CreateUploadLocation project domain None,
                                             PutData v (signed_url loc)])
                             (take k (structured_dataset_values env w tokens)) (take k locs)))
             project domain None = Inr (locs ! k))"
  using assms unfolding parse_workflow_inputs_def by (rule loop_trace)

theorem upload_locations_requested_in_token_order_witness:
  "structured_dataset_values example_env example_wf
     [''--df'', ''/a.csv'', ''--count'', ''7'', ''--df'', ''/b.csv''] = [''/a.csv'', ''/b.csv'']
   \<and> snd (parse_workflow_inputs example_env
            [''--df'', ''/a.csv'', ''--count'', ''7'', ''--df'', ''/b.csv''] example_wf
            (PartialCreateUploadLocation ''flytesnacks'' ''development'') [])
       = [CreateUploadLocation ''flytesnacks'' ''development'' None,
          PutData ''/a.csv'' ''https://signed/'',
          CreateUploadLocation ''flytesnacks'' ''development'' None,
          PutData ''/b.csv'' ''https://signed/++'']
   \<and> (\<exists>locs :: upload_location list. length locs = length [''/a.csv'', ''/b.csv'']
         \<and> [CreateUploadLocation ''flytesnacks'' ''development'' None,
             PutData ''/a.csv'' ''https://signed/'',
             CreateUploadLocation ''flytesnacks'' ''development'' None,
             PutData ''/b.csv'' ''https://signed/++'']
           = [] @ concat (map2 (\<lambda>v loc. [CreateUploadLocation ''flytesnacks'' ''development'' None
                                              :: (string, string) event,
                                            PutData v (signed_url loc)])
                            [''/a.csv'', ''/b.csv''] locs))"
proof -
  let ?toks = "[''--df'', ''/a.csv'', ''--count'', ''7'', ''--df'', ''/b.csv'']"
  let ?tr = "[CreateUploadLocation ''flytesnacks'' ''development'' None :: (string, string) event,
              PutData ''/a.csv'' ''https://signed/'',
              CreateUploadLocation ''flytesnacks'' ''development'' None,
              PutData ''/b.csv'' ''https://signed/++'']"
  have sdv: "structured_dataset_values example_env example_wf ?toks = [''/a.csv'', ''/b.csv'']"
    by (simp add: structured_dataset_values_def declared_python_type_def example_wf_simps
        example_env_simps example_guess_simps)
  have "\<exists>m. parse_workflow_inputs example_env ?toks example_wf
              (PartialCreateUploadLocation ''flytesnacks'' ''development'') [] = (Inr m, ?tr)"
    by (simp add: parse_workflow_inputs_def and_then_def resolve_argument_def succeed_def
        call_def call_unit_def example_location_def example_wf_simps example_env_simps
        example_guess_simps py_int_examples)
  then obtain m where h: "parse_workflow_inputs example_env ?toks example_wf
              (PartialCreateUploadLocation ''flytesnacks'' ''development'') [] = (Inr m, ?tr)" ..
  have tr: "snd (parse_workflow_inputs example_env ?toks example_wf
              (PartialCreateUploadLocation ''flytesnacks'' ''development'') []) = ?tr"
    by (simp only: h snd_conv)
  have ex: "\<exists>locs :: upload_location list. length locs = length [''/a.csv'', ''/b.csv'']
         \<and> ?tr = [] @ concat (map2 (\<lambda>v loc. [CreateUploadLocation ''flytesnacks'' ''development'' None
                                              :: (string, string) event,
                                            PutData v (signed_url loc)])
                            [''/a.csv'', ''/b.csv''] locs)"
    using upload_locations_requested_in_token_order [OF h, unfolded sdv]
    by (elim exE conjE, intro exI conjI) assumption+
  from sdv tr ex show ?thesis by (intro conjI)
qed

section \<open>Properties of the command\<close>

subsection \<open>What an action adds to the trace\<close>

lemma only_addsD:
  "only_adds P m \<Longrightarrow> \<exists>s. snd (m tr) = tr @ s \<and> list_all P s"
  by (simp add: only_adds_def)

lemma only_adds_succeed: "only_adds P (succeed x)"
  by (simp add: only_adds_def succeed_def)

lemma only_adds_raise: "only_adds P (raise e)"
  by (simp add: only_adds_def raise_def)

lemma only_adds_call: "P ev \<Longrightarrow> only_adds P (call answer ev)"
  by (simp add: only_adds_def call_def)

lemma only_adds_call_unit: "P ev \<Longrightarrow> only_adds P (call_unit env ev)"
  by (simp add: call_unit_def only_adds_call)

lemma only_adds_and_then:
  assumes "only_adds P m" and "\<And>x. only_adds P (f x)"
  shows "only_adds P (and_then m f)"
  unfolding only_adds_def
proof
  fix tr
  from only_addsD [OF assms(1), of tr] obtain s where s: "snd (m tr) = tr @ s" "list_all P s"
    by blast
  show "\<exists>s. snd (and_then m f tr) = tr @ s \<and> list_all P s"
  proof (cases "m tr")
    case (Pair r t)
    with s have t: "t = tr @ s" by simp
    show ?thesis
    proof (cases r)
      case (Inl e)
      with Pair t s show ?thesis by (auto simp: and_then_def)
    next
      case (Inr x)
      from only_addsD [OF assms(2), of x t] obtain s' where
        s': "snd (f x t) = t @ s'" "list_all P s'" by blast
      with Pair Inr t s show ?thesis
        by (auto simp: and_then_def intro!: exI [of _ "s @ s'"])
    qed
  qed
qed

lemma only_adds_mono:
  "only_adds P m \<Longrightarrow> (\<And>e. P e \<Longrightarrow> Q e) \<Longrightarrow> only_adds Q m"
  unfolding only_adds_def by (metis list.pred_mono_strong)

lemma only_adds_resolve_argument:
  assumes "P (CreateUploadLocation p d None)" and "\<And>v u. P (PutData v u)"
  shows "only_adds P (resolve_argument env w (PartialCreateUploadLocation p d) a v)"
  unfolding resolve_argument_def
  by (auto split: option.splits sum.splits
      intro!: only_adds_raise only_adds_succeed only_adds_and_then only_adds_call
        only_adds_call_unit assms)

lemma only_adds_loop:
  assumes "P (CreateUploadLocation p d None)" and "\<And>v u. P (PutData v u)"
  shows "only_adds P (parse_workflow_inputs_loop env w (PartialCreateUploadLocation p d) toks args)"
proof (induction toks arbitrary: args rule: induct_list012)
  case 1
  then show ?case by (simp add: only_adds_succeed)
next
  case (2 flag)
  then show ?case by (simp add: only_adds_raise)
next
  case (3 flag v rest)
  show ?case
    by (simp, intro only_adds_and_then only_adds_resolve_argument assms "3.IH"(1))
qed

lemma only_adds_parse:
  assumes "P (CreateUploadLocation p d None)" and "\<And>v u. P (PutData v u)"
  shows "only_adds P (parse_workflow_inputs env toks w (PartialCreateUploadLocation p d))"
  unfolding parse_workflow_inputs_def by (rule only_adds_loop [OF assms])

lemma only_adds_load:
  assumes "\<And>m. P (ImportModule m)" and "\<And>m. P (LoadObjectFromModule m)"
  shows "only_adds P (load_naive_entity env module_name workflow_name)"
  unfolding load_naive_entity_def
  by (intro only_adds_and_then only_adds_call only_adds_call_unit assms)

lemma dataset_requests_append:
  "dataset_requests (xs @ ys) = dataset_requests xs @ dataset_requests ys"
  by (simp add: dataset_requests_def map_filter_def)

lemma script_requests_append:
  "script_requests (xs @ ys) = script_requests xs @ script_requests ys"
  by (simp add: script_requests_def map_filter_def)

lemma no_dataset_requests:
  "list_all (\<lambda>e. dataset_request e = None) s \<Longrightarrow> dataset_requests s = []"
  by (induction s) (auto simp: dataset_requests_def map_filter_def)

lemma dataset_requests_unchanged:
  assumes "only_adds (\<lambda>e. dataset_request e = None) m"
  shows "dataset_requests (snd (m tr)) = dataset_requests tr"
proof -
  from only_addsD [OF assms, of tr] obtain s where
    "snd (m tr) = tr @ s" "list_all (\<lambda>e. dataset_request e = None) s" by blast
  then show ?thesis by (simp add: dataset_requests_append no_dataset_requests)
qed

lemma dataset_requests_same_head:
  assumes "\<And>x t. dataset_requests (snd (f x t)) = dataset_requests (snd (g x t))"
  shows "dataset_requests (snd (and_then m f tr)) = dataset_requests (snd (and_then m g tr))"
  using assms by (auto simp: and_then_def split: prod.splits sum.splits)

lemma only_adds_run:
  "only_adds (request_allowed project domain)
     (run env click_ctx_args file_and_workflow remote project domain destination_dir image_config)"
  unfolding run_def Let_def
  by (auto intro!: only_adds_raise only_adds_and_then only_adds_call only_adds_call_unit
      only_adds_parse only_adds_load)

lemma run_dataset_requests_independent:
  "dataset_requests
     (snd (run env click_ctx_args file_and_workflow remote project domain destination_dir
             image_config tr))
   = dataset_requests
       (snd (run env click_ctx_args file_and_workflow remote project' domain' destination_dir
               image_config tr))"
proof (cases "length (str_split CHR '':'' file_and_workflow) \<noteq> 2")
  case True
  then show ?thesis by (simp add: run_def raise_def)
next
  case False
  show ?thesis
  proof (cases remote)
    case True
    with False show ?thesis
      unfolding run_def Let_def
      apply simp
      apply (rule dataset_requests_same_head)
      apply (rule dataset_requests_same_head)
      apply (rule dataset_requests_same_head)
      apply (rule dataset_requests_same_head)
      apply (simp add: dataset_requests_unchanged only_adds_and_then only_adds_call
          only_adds_call_unit)
      done
  next
    case nr: False
    with False show ?thesis by (simp add: run_def Let_def)
  qed
qed

lemma adds_someD:
  "adds_some Q m \<Longrightarrow> m tr = (Inr y, tr') \<Longrightarrow> \<exists>s. tr' = tr @ s \<and> list_ex Q s"
  by (simp add: adds_some_def)

lemma and_then_Inr:
  "and_then m f tr = (Inr y, tr') \<Longrightarrow> \<exists>x t. m tr = (Inr x, t) \<and> f x t = (Inr y, tr')"
  by (auto simp: and_then_def split: prod.splits sum.splits)

lemma adds_some_call: "Q ev \<Longrightarrow> adds_some Q (call answer ev)"
  by (auto simp: adds_some_def call_def)

lemma adds_some_later:
  assumes "only_adds P m" and "\<And>x. adds_some Q (f x)"
  shows "adds_some Q (and_then m f)"
  unfolding adds_some_def
proof (intro allI impI)
  fix tr y tr'
  assume "and_then m f tr = (Inr y, tr')"
  from and_then_Inr [OF this] obtain x t where m: "m tr = (Inr x, t)" and f: "f x t = (Inr y, tr')"
    by blast
  from only_addsD [OF assms(1), of tr] m obtain s where s: "t = tr @ s" by auto
  from adds_someD [OF assms(2) f] obtain s' where "tr' = t @ s'" "list_ex Q s'" by blast
  with s show "\<exists>s. tr' = tr @ s \<and> list_ex Q s"
    by (auto intro!: exI [of _ "s @ s'"])
qed

lemma adds_some_first:
  assumes "adds_some Q m" and "\<And>x. only_adds P (f x)"
  shows "adds_some Q (and_then m f)"
  unfolding adds_some_def
proof (intro allI impI)
  fix tr y tr'
  assume "and_then m f tr = (Inr y, tr')"
  from and_then_Inr [OF this] obtain x t where m: "m tr = (Inr x, t)" and f: "f x t = (Inr y, tr')"
    by blast
  from adds_someD [OF assms(1) m] obtain s where s: "t = tr @ s" "list_ex Q s" by blast
  from only_addsD [OF assms(2), of x t] f obtain s' where "tr' = t @ s'" by auto
  with s show "\<exists>s. tr' = tr @ s \<and> list_ex Q s"
    by (auto intro!: exI [of _ "s @ s'"])
qed

lemma only_adds_anything_parse:
  "only_adds (\<lambda>_. True) (parse_workflow_inputs env toks w (PartialCreateUploadLocation p d))"
  by (rule only_adds_parse) simp_all

lemma only_adds_anything_load:
  "only_adds (\<lambda>_. True) (load_naive_entity env module_name workflow_name)"
  by (rule only_adds_load) simp_all

lemma run_remote_adds_script_request:
  assumes "length (str_split CHR '':'' file_and_workflow) = 2"
  shows "adds_some (\<lambda>e. \<exists>version. e = CreateUploadLocation project domain
                                            (Some (''scriptmode-'' @ version @ ''.tar.gz'')))
     (run env click_ctx_args file_and_workflow True project domain destination_dir image_config)"
  using assms unfolding run_def Let_def
  apply simp
  apply (rule adds_some_later [OF only_adds_anything_load])
  apply (rule adds_some_later [OF only_adds_call_unit [of "\<lambda>_. True"]], simp)
  apply (rule adds_some_later [OF only_adds_call_unit [of "\<lambda>_. True"]], simp)
  apply (rule adds_some_later [OF only_adds_anything_parse])
  apply (rule adds_some_later [OF only_adds_call [of "\<lambda>_. True"]], simp)
  apply (rule adds_some_first [where P = "\<lambda>_. True"])
   apply (rule adds_some_call, blast)
  apply (intro only_adds_and_then only_adds_call only_adds_call_unit TrueI)
  done

lemma run_fails_validation:
  assumes "length (str_split CHR '':'' file_and_workflow) \<noteq> 2"
  shows "run env click_ctx_args file_and_workflow remote project domain destination_dir image_config tr
           = (Inl (FlyteValidationException (validation_message file_and_workflow)), tr)"
  using assms by (simp add: run_def raise_def)

lemma allowed_requests:
  "list_all (request_allowed project domain) s \<Longrightarrow>
   set (dataset_requests s) \<subseteq> {(''flytesnacks'', ''development'')}
   \<and> (\<lambda>(p, d, suffix). (p, d)) ` set (script_requests s) \<subseteq> {(project, domain)}"
proof (induction s)
  case Nil
  then show ?case by (simp add: dataset_requests_def script_requests_def map_filter_def)
next
  case (Cons e s)
  then have e: "request_allowed project domain e" and s: "list_all (request_allowed project domain) s"
    by simp_all
  have split: "dataset_requests (e # s) = dataset_requests [e] @ dataset_requests s"
    "script_requests (e # s) = script_requests [e] @ script_requests s"
    using dataset_requests_append [of "[e]" s] script_requests_append [of "[e]" s] by simp_all
  have "set (dataset_requests [e]) \<subseteq> {(''flytesnacks'', ''development'')}
        \<and> (\<lambda>(p, d, suffix). (p, d)) ` set (script_requests [e]) \<subseteq> {(project, domain)}"
  proof (cases e)
    case (CreateUploadLocation p d suffix)
    with e show ?thesis
      by (cases suffix) (simp_all add: dataset_requests_def script_requests_def map_filter_def)
  qed (simp_all add: dataset_requests_def script_requests_def map_filter_def)
  with Cons.IH [OF s] show ?case
    unfolding split by auto
qed

lemma script_request_member:
  "e \<in> set s \<Longrightarrow> script_request e = Some x \<Longrightarrow> x \<in> set (script_requests s)"
  unfolding script_requests_def map_filter_def set_map
  by (rule image_eqI [where x = e]) (cases x; simp)+

lemma run_new_events:
  "\<exists>s. snd (run env click_ctx_args file_and_workflow remote project domain destination_dir
                image_config tr) = tr @ s
       \<and> list_all (request_allowed project domain) s"
  by (rule only_addsD [OF only_adds_run])

lemma list_ex_script_request:
  assumes "list_ex (\<lambda>e. \<exists>version. e = CreateUploadLocation project domain (Some (g version))) s"
  shows "\<exists>version. (project, domain, g version) \<in> set (script_requests s)"
proof -
  from assms obtain e where e: "e \<in> set s"
    and ex: "\<exists>version. e = CreateUploadLocation project domain (Some (g version))"
    unfolding list_ex_iff ..
  from ex obtain version where "e = CreateUploadLocation project domain (Some (g version))" ..
  then have "script_request e = Some (project, domain, g version)" by simp
  from script_request_member [OF e this] show ?thesis ..
qed

lemma run_remote_success_script_request:
  assumes "run env click_ctx_args file_and_workflow True project domain destination_dir
             image_config tr = (Inr (), tr @ s)"
  shows "\<exists>version. (project, domain, ''scriptmode-'' @ version @ ''.tar.gz'')
           \<in> set (script_requests s)"
proof -
  have len: "length (str_split CHR '':'' file_and_workflow) = 2"
  proof (rule ccontr)
    assume "length (str_split CHR '':'' file_and_workflow) \<noteq> 2"
    from run_fails_validation [OF this, of env click_ctx_args True project domain
        destination_dir image_config tr] assms
    show False by simp
  qed
  from adds_someD [OF run_remote_adds_script_request [OF len] assms]
  obtain s2 where s2: "tr @ s = tr @ s2
    \<and> list_ex (\<lambda>e. \<exists>version. e = CreateUploadLocation project domain
                                   (Some (''scriptmode-'' @ version @ ''.tar.gz''))) s2" ..
  from s2 have "s2 = s" by simp
  with s2 have "list_ex (\<lambda>e. \<exists>version. e = CreateUploadLocation project domain
                                   (Some (''scriptmode-'' @ version @ ''.tar.gz''))) s"
    by simp
  then show ?thesis
    by (rule list_ex_script_request [where g = "\<lambda>version. ''scriptmode-'' @ version @ ''.tar.gz''"])
qed

subsection \<open>Projects and domains of the upload requests\<close>

text \<open>
  Claim C3. The requests for the upload locations of structured datasets do not
  depend on the project and the domain given to the command: two invocations that
  differ in them only make the same requests, each for the project \<open>flytesnacks\<close> and
  the domain \<open>development\<close>. Every request for the location of the script archive is
  made for the project and the domain given, and a remote run that succeeds has made
  one, with the suffix built from the hash of the script.
\<close>

theorem dataset_upload_requests_ignore_project_and_domain:
  "dataset_requests (drop (length tr)
      (snd (run env click_ctx_args file_and_workflow remote project domain destination_dir
              image_config tr)))
     = dataset_requests (drop (length tr)
         (snd (run env click_ctx_args file_and_workflow remote project' domain' destination_dir
                 image_config tr)))
   \<and> set (dataset_requests (drop (length tr)
            (snd (run env click_ctx_args file_and_workflow remote project domain destination_dir
                    image_config tr))))
       \<subseteq> {(''flytesnacks'', ''development'')}
   \<and> (\<lambda>(p, d, suffix). (p, d)) ` set (script_requests (drop (length tr)
            (snd (run env click_ctx_args file_and_workflow remote project domain destination_dir
                    image_config tr))))
       \<subseteq> {(project, domain)}
   \<and> (remote \<and> fst (run env click_ctx_args file_and_workflow remote project domain destination_dir
                         image_config tr) = Inr ()
        \<longrightarrow> (\<exists>version. (project, domain, ''scriptmode-'' @ version @ ''.tar.gz'')
               \<in> set (script_requests (drop (length tr)
                    (snd (run env click_ctx_args file_and_workflow remote project domain
                            destination_dir image_config tr))))))"
proof -
  let ?run = "run env click_ctx_args file_and_workflow remote project domain destination_dir
                image_config"
  let ?run' = "run env click_ctx_args file_and_workflow remote project' domain' destination_dir
                 image_config"
  obtain s where s: "snd (?run tr) = tr @ s \<and> list_all (request_allowed project domain) s"
    using run_new_events [of env click_ctx_args file_and_workflow remote project domain
        destination_dir image_config tr] ..
  obtain s' where s': "snd (?run' tr) = tr @ s' \<and> list_all (request_allowed project' domain') s'"
    using run_new_events [of env click_ctx_args file_and_workflow remote project' domain'
        destination_dir image_config tr] ..
  have new: "drop (length tr) (snd (?run tr)) = s" "drop (length tr) (snd (?run' tr)) = s'"
    using s s' by simp_all
  have "dataset_requests (snd (?run tr)) = dataset_requests (snd (?run' tr))"
    by (rule run_dataset_requests_independent)
  then have "dataset_requests (tr @ s) = dataset_requests (tr @ s')"
    using s s' by simp
  then have c1: "dataset_requests s = dataset_requests s'"
    by (simp add: dataset_requests_append)
  from allowed_requests [OF s [THEN conjunct2]]
  have c2: "set (dataset_requests s) \<subseteq> {(''flytesnacks'', ''development'')}"
    and c3: "(\<lambda>(p, d, suffix). (p, d)) ` set (script_requests s) \<subseteq> {(project, domain)}"
    by (rule conjunct1, rule conjunct2)
  have c4: "remote \<and> fst (?run tr) = Inr ()
            \<longrightarrow> (\<exists>version. (project, domain, ''scriptmode-'' @ version @ ''.tar.gz'')
                   \<in> set (script_requests s))"
  proof (intro impI, elim conjE)
    assume remote: remote and ok: "fst (?run tr) = Inr ()"
    from ok s have "?run tr = (Inr (), tr @ s)"
      by (cases "?run tr") simp
    with remote have "run env click_ctx_args file_and_workflow True project domain destination_dir
             image_config tr = (Inr (), tr @ s)" by simp
    then show "\<exists>version. (project, domain, ''scriptmode-'' @ version @ ''.tar.gz'')
                 \<in> set (script_requests s)"
      by (rule run_remote_success_script_request)
  qed
  from c1 c2 c3 c4 show ?thesis
    unfolding new by (intro conjI)
qed

lemma example_run_succeeds:
  "fst (run example_env [''--df'', ''/local/data.csv''] ''script.py:my_workflow'' True
          ''myproject'' ''staging'' ''/root'' ''img'' []) = Inr ()"
  by code_simp

lemma example_run_requests:
  "dataset_requests (drop (length ([] :: (string, string) event list))
     (snd (run example_env [''--df'', ''/local/data.csv''] ''script.py:my_workflow'' True
             ''myproject'' ''staging'' ''/root'' ''img'' [])))
     = [(''flytesnacks'', ''development'')]"
  "script_requests (drop (length ([] :: (string, string) event list))
     (snd (run example_env [''--df'', ''/local/data.csv''] ''script.py:my_workflow'' True
             ''myproject'' ''staging'' ''/root'' ''img'' [])))
     = [(''myproject'', ''staging'', ''scriptmode-abc123.tar.gz'')]"
  by code_simp+

theorem dataset_upload_requests_ignore_project_and_domain_witness:
  "fst (run example_env [''--df'', ''/local/data.csv''] ''script.py:my_workflow'' True
          ''myproject'' ''staging'' ''/root'' ''img'' []) = Inr ()
   \<and> dataset_requests (drop (length ([] :: (string, string) event list))
         (snd (run example_env [''--df'', ''/local/data.csv''] ''script.py:my_workflow'' True
                 ''myproject'' ''staging'' ''/root'' ''img'' [])))
       = dataset_requests (drop (length ([] :: (string, string) event list))
           (snd (run example_env [''--df'', ''/local/data.csv''] ''script.py:my_workflow'' True
                   ''flytesnacks'' ''production'' ''/root'' ''img'' [])))
   \<and> (\<exists>version. (''myproject'', ''staging'', ''scriptmode-'' @ version @ ''.tar.gz'')
         \<in> set (script_requests (drop (length ([] :: (string, string) event list))
               (snd (run example_env [''--df'', ''/local/data.csv''] ''script.py:my_workflow'' True
                       ''myproject'' ''staging'' ''/root'' ''img'' [])))))"
proof -
  note c = dataset_upload_requests_ignore_project_and_domain [of "[]" example_env "[''--df'', ''/local/data.csv'']" "''script.py:my_workflow''"
      True "''myproject''" "''staging''" "''/root''" "''img''" "''flytesnacks''" "''production''"]
  have ok: "True \<and> fst (run example_env [''--df'', ''/local/data.csv''] ''script.py:my_workflow'' True
          ''myproject'' ''staging'' ''/root'' ''img'' []) = Inr ()"
    using example_run_succeeds by (intro conjI TrueI)
  from c [THEN conjunct1] c [THEN conjunct2, THEN conjunct2, THEN conjunct2, THEN mp, OF ok]
    ok [THEN conjunct2]
  show ?thesis by (intro conjI)
qed

subsection \<open>The positional argument\<close>

lemma length_str_split: "length (str_split sep s) = Suc (count_list s sep)"
  by (induction s) (auto split: list.splits)

lemma str_split_without_sep: "sep \<notin> set s \<Longrightarrow> str_split sep s = [s]"
  by (induction s) auto

lemma str_split_one_sep:
  "sep \<notin> set a \<Longrightarrow> sep \<notin> set b \<Longrightarrow> str_split sep (a @ sep # b) = [a, b]"
  by (induction a) (auto simp: str_split_without_sep)

lemma raises_onlyD: "raises_only E m \<Longrightarrow> fst (m tr) = Inl e \<Longrightarrow> E e"
  by (simp add: raises_only_def)

lemma raises_only_succeed: "raises_only E (succeed x)"
  by (simp add: raises_only_def succeed_def)

lemma raises_only_raise: "E e \<Longrightarrow> raises_only E (raise e)"
  by (simp add: raises_only_def raise_def)

lemma raises_only_call: "(\<And>m. E (Propagated m)) \<Longrightarrow> raises_only E (call answer ev)"
  by (auto simp: raises_only_def call_def split: sum.splits)

lemma raises_only_call_unit: "(\<And>m. E (Propagated m)) \<Longrightarrow> raises_only E (call_unit env ev)"
  by (simp add: call_unit_def raises_only_call)

lemma raises_only_and_then:
  assumes "raises_only E m" and "\<And>x. raises_only E (f x)"
  shows "raises_only E (and_then m f)"
  using assms
  by (auto simp: raises_only_def and_then_def split: prod.splits sum.splits)
    (metis fst_conv)+

lemma raises_only_resolve_argument:
  "raises_only not_validation (resolve_argument env w fn a v)"
  unfolding resolve_argument_def
  by (cases fn)
    (auto split: option.splits sum.splits
      intro!: raises_only_raise raises_only_succeed raises_only_and_then raises_only_call
        raises_only_call_unit)

lemma raises_only_loop:
  "raises_only not_validation (parse_workflow_inputs_loop env w fn toks args)"
proof (induction toks arbitrary: args rule: induct_list012)
  case 1
  then show ?case by (simp add: raises_only_succeed)
next
  case (2 flag)
  then show ?case by (simp add: raises_only_raise)
next
  case (3 flag v rest)
  show ?case
    by (simp, intro raises_only_and_then raises_only_resolve_argument "3.IH"(1))
qed

lemma raises_only_run:
  assumes "length (str_split CHR '':'' file_and_workflow) = 2"
  shows "raises_only not_validation
     (run env click_ctx_args file_and_workflow remote project domain destination_dir image_config)"
  using assms unfolding run_def Let_def load_naive_entity_def parse_workflow_inputs_def
  by (auto intro!: raises_only_and_then raises_only_call raises_only_call_unit raises_only_loop
      raises_only_raise)

lemma and_then_assoc:
  "and_then (and_then m g) k = and_then m (\<lambda>x. and_then (g x) k)"
  by (auto simp: and_then_def fun_eq_iff split: prod.splits sum.splits)

lemma first_event:
  assumes "\<And>x. only_adds P (f x)"
  shows "\<exists>rest. snd (and_then (call_unit env ev) f tr) = tr @ ev # rest"
proof (cases "fails env tr ev")
  case None
  from only_addsD [OF assms, of "()" "tr @ [ev]"] obtain s where
    "snd (f () (tr @ [ev])) = (tr @ [ev]) @ s" by blast
  with None show ?thesis
    by (simp add: and_then_def call_unit_def call_def)
next
  case (Some m)
  then show ?thesis
    by (simp add: and_then_def call_unit_def call_def)
qed

lemma first_two_events:
  assumes "\<And>x. only_adds P (k x)" and "fails env tr ev = None"
  shows "\<exists>rest. snd (and_then (call_unit env ev) (\<lambda>_. and_then (call answer ev') k) tr)
           = tr @ ev # ev' # rest"
proof (cases "answer (tr @ [ev])")
  case (Inl m)
  with assms(2) show ?thesis
    by (simp add: and_then_def call_unit_def call_def)
next
  case (Inr x)
  from only_addsD [OF assms(1), of x "tr @ [ev, ev']"] obtain s where
    "snd (k x (tr @ [ev, ev'])) = (tr @ [ev, ev']) @ s" by blast
  with Inr assms(2) show ?thesis
    by (simp add: and_then_def call_unit_def call_def)
qed

lemma run_first_event:
  assumes "length (str_split CHR '':'' file_and_workflow) = 2"
  shows "\<exists>rest. snd (run env click_ctx_args file_and_workflow remote project domain
                        destination_dir image_config tr)
           = tr @ ImportModule (replace_sep (fst (splitext (str_split CHR '':'' file_and_workflow ! 0))))
               # rest"
  using assms unfolding run_def Let_def load_naive_entity_def and_then_assoc
  apply simp
  apply (rule first_event [where P = "\<lambda>_. True"])
  apply (auto intro!: only_adds_and_then only_adds_call only_adds_call_unit
      only_adds_anything_parse only_adds_raise)
  done

lemma run_first_two_events:
  assumes "length (str_split CHR '':'' file_and_workflow) = 2"
    and "fails env tr
           (ImportModule (replace_sep (fst (splitext (str_split CHR '':'' file_and_workflow ! 0)))))
         = None"
  shows "\<exists>rest. snd (run env click_ctx_args file_and_workflow remote project domain
                        destination_dir image_config tr)
           = tr @ ImportModule (replace_sep (fst (splitext (str_split CHR '':'' file_and_workflow ! 0))))
               # LoadObjectFromModule
                   (replace_sep (fst (splitext (str_split CHR '':'' file_and_workflow ! 0)))
                    @ ''.'' @ str_split CHR '':'' file_and_workflow ! 1)
               # rest"
  using assms unfolding run_def Let_def load_naive_entity_def and_then_assoc
  apply (simp del: append.simps)
  apply (rule first_two_events [where P = "\<lambda>_. True"])
   apply (auto intro!: only_adds_and_then only_adds_call only_adds_call_unit
      only_adds_anything_parse only_adds_raise)
  done

text \<open>
  Claim C7. The command fails with its validation error exactly when the positional
  argument does not split at colons into two parts, that is when it has no colon or
  more than one; the failure comes before any call of a collaborator (the trace is
  unchanged). An argument with one colon never fails with the validation error; a file
  name and a workflow name without colons, joined by a colon, split into the two, and
  the first calls are the import of the module of the file and (when the import does
  not fail) the load of the workflow of that name from it.
\<close>

theorem malformed_positional_argument_fails_validation:
  "(length (str_split CHR '':'' file_and_workflow) \<noteq> 2)
     = (count_list file_and_workflow CHR '':'' \<noteq> 1)
   \<and> (count_list file_and_workflow CHR '':'' \<noteq> 1 \<longrightarrow>
        run env click_ctx_args file_and_workflow remote project domain destination_dir image_config tr
          = (Inl (FlyteValidationException (validation_message file_and_workflow)), tr))
   \<and> (count_list file_and_workflow CHR '':'' = 1 \<longrightarrow>
        (\<forall>msg. fst (run env click_ctx_args file_and_workflow remote project domain destination_dir
                       image_config tr) \<noteq> Inl (FlyteValidationException msg)))
   \<and> (CHR '':'' \<notin> set filename \<and> CHR '':'' \<notin> set workflow_name \<longrightarrow>
        str_split CHR '':'' (filename @ CHR '':'' # workflow_name) = [filename, workflow_name]
        \<and> (\<exists>rest. snd (run env click_ctx_args (filename @ CHR '':'' # workflow_name) remote project
                            domain destination_dir image_config tr)
               = tr @ ImportModule (replace_sep (fst (splitext filename))) # rest)
        \<and> (fails env tr (ImportModule (replace_sep (fst (splitext filename)))) = None \<longrightarrow>
             (\<exists>rest. snd (run env click_ctx_args (filename @ CHR '':'' # workflow_name) remote
                              project domain destination_dir image_config tr)
                = tr @ ImportModule (replace_sep (fst (splitext filename)))
                    # LoadObjectFromModule
                        (replace_sep (fst (splitext filename)) @ ''.'' @ workflow_name)
                    # rest)))"
proof -
  have c1: "(length (str_split CHR '':'' file_and_workflow) \<noteq> 2)
              = (count_list file_and_workflow CHR '':'' \<noteq> 1)"
    by (simp add: length_str_split)
  have c2: "run env click_ctx_args file_and_workflow remote project domain destination_dir
              image_config tr
            = (Inl (FlyteValidationException (validation_message file_and_workflow)), tr)"
    if "count_list file_and_workflow CHR '':'' \<noteq> 1"
    using that by (simp add: run_def raise_def length_str_split)
  have c3: "fst (run env click_ctx_args file_and_workflow remote project domain destination_dir
                   image_config tr) \<noteq> Inl (FlyteValidationException msg)"
    if one: "count_list file_and_workflow CHR '':'' = 1" for msg
  proof
    assume bad: "fst (run env click_ctx_args file_and_workflow remote project domain
                        destination_dir image_config tr) = Inl (FlyteValidationException msg)"
    from one have "length (str_split CHR '':'' file_and_workflow) = 2"
      by (simp add: length_str_split)
    from raises_onlyD [OF raises_only_run [OF this] bad] show False by simp
  qed
  have c4: "str_split CHR '':'' (filename @ CHR '':'' # workflow_name) = [filename, workflow_name]
        \<and> (\<exists>rest. snd (run env click_ctx_args (filename @ CHR '':'' # workflow_name) remote project
                            domain destination_dir image_config tr)
               = tr @ ImportModule (replace_sep (fst (splitext filename))) # rest)
        \<and> (fails env tr (ImportModule (replace_sep (fst (splitext filename)))) = None \<longrightarrow>
             (\<exists>rest. snd (run env click_ctx_args (filename @ CHR '':'' # workflow_name) remote
                              project domain destination_dir image_config tr)
                = tr @ ImportModule (replace_sep (fst (splitext filename)))
                    # LoadObjectFromModule
                        (replace_sep (fst (splitext filename)) @ ''.'' @ workflow_name)
                    # rest))"
    if nc: "CHR '':'' \<notin> set filename \<and> CHR '':'' \<notin> set workflow_name"
  proof -
    from nc have split: "str_split CHR '':'' (filename @ CHR '':'' # workflow_name)
                           = [filename, workflow_name]"
      by (simp add: str_split_one_sep)
    then have len: "length (str_split CHR '':'' (filename @ CHR '':'' # workflow_name)) = 2"
      by simp
    from run_first_event [OF len, of env click_ctx_args remote project domain destination_dir
        image_config tr]
    have e1: "\<exists>rest. snd (run env click_ctx_args (filename @ CHR '':'' # workflow_name) remote project
                            domain destination_dir image_config tr)
               = tr @ ImportModule (replace_sep (fst (splitext filename))) # rest"
      unfolding split by simp
    have e2: "\<exists>rest. snd (run env click_ctx_args (filename @ CHR '':'' # workflow_name) remote
                              project domain destination_dir image_config tr)
                = tr @ ImportModule (replace_sep (fst (splitext filename)))
                    # LoadObjectFromModule
                        (replace_sep (fst (splitext filename)) @ ''.'' @ workflow_name)
                    # rest"
      if ok: "fails env tr (ImportModule (replace_sep (fst (splitext filename)))) = None"
    proof -
      from ok have "fails env tr (ImportModule (replace_sep (fst (splitext
                      (str_split CHR '':'' (filename @ CHR '':'' # workflow_name) ! 0))))) = None"
        unfolding split by simp
      from run_first_two_events [OF len this, of click_ctx_args remote project domain
          destination_dir image_config]
      show ?thesis unfolding split by simp
    qed
    from split e1 e2 show ?thesis by (intro conjI impI)
  qed
  show ?thesis
    by (rule conjI, rule c1, rule conjI, rule impI, erule c2, rule conjI, rule impI, rule allI,
        erule c3, rule impI, erule c4)
qed

theorem malformed_positional_argument_fails_validation_witness:
  "count_list ''a:b:c'' CHR '':'' \<noteq> 1
   \<and> run example_env [] ''a:b:c'' True ''p'' ''d'' ''/root'' ''img'' []
       = (Inl (FlyteValidationException (validation_message ''a:b:c'')), [])
   \<and> count_list ''noColon'' CHR '':'' \<noteq> 1
   \<and> run example_env [] ''noColon'' True ''p'' ''d'' ''/root'' ''img'' []
       = (Inl (FlyteValidationException (validation_message ''noColon'')), [])
   \<and> str_split CHR '':'' ''script.py:my_workflow'' = [''script.py'', ''my_workflow'']"
proof -
  have h1: "count_list ''a:b:c'' CHR '':'' \<noteq> 1" by simp
  have h2: "count_list ''noColon'' CHR '':'' \<noteq> 1" by simp
  have h3: "CHR '':'' \<notin> set ''script.py'' \<and> CHR '':'' \<notin> set ''my_workflow''" by simp
  note a = malformed_positional_argument_fails_validation [of "''a:b:c''" example_env "[]" True "''p''" "''d''" "''/root''" "''img''" "[]"
      "''script.py''" "''my_workflow''", THEN conjunct2, THEN conjunct1, THEN mp, OF h1]
  note b = malformed_positional_argument_fails_validation [of "''noColon''" example_env "[]" True "''p''" "''d''" "''/root''" "''img''" "[]"
      "''script.py''" "''my_workflow''", THEN conjunct2, THEN conjunct1, THEN mp, OF h2]
  note c = malformed_positional_argument_fails_validation [of "''noColon''" example_env "[]" True "''p''" "''d''" "''/root''" "''img''" "[]"
      "''script.py''" "''my_workflow''", THEN conjunct2, THEN conjunct2, THEN conjunct2, THEN mp,
      OF h3, THEN conjunct1]
  from c have c': "str_split CHR '':'' ''script.py:my_workflow'' = [''script.py'', ''my_workflow'']"
    by simp
  from h1 a h2 b c' show ?thesis by (intro conjI)
qed

end
